theory Spec2Isabelle
  imports Main
begin

section \<open>Strings as Python uses them\<close>

text \<open>
  A Python \<open>str\<close> is modelled as a \<open>string\<close>; one \<open>char\<close> stands for one character
  of the Python string, so \<open>length\<close> is Python's \<open>len\<close> and \<open>take n\<close> is the slice
  \<open>[:n]\<close>.
\<close>

definition startswith :: "string \<Rightarrow> string \<Rightarrow> bool" where
  \<comment> \<open>\<open>s.startswith(p)\<close>\<close>
  "startswith s p = (take (length p) s = p)"

definition replace_char :: "char \<Rightarrow> string \<Rightarrow> string \<Rightarrow> string" where
  \<comment> \<open>\<open>s.replace(a, b)\<close> for a pattern \<open>a\<close> of one character\<close>
  "replace_char a b s = concat (map (\<lambda>c. if c = a then b else [c]) s)"

section \<open>Project-path encoding (utils/paths.py)\<close>

definition decode_project_path :: "string \<Rightarrow> string" where
  "decode_project_path encoded =
     (if encoded = [] then []
      else
        let encoded1 = (if startswith encoded ''-'' then drop 1 encoded else encoded);
            decoded = replace_char CHR ''-'' ''/'' encoded1
        in if \<not> startswith decoded ''/'' then ''/'' @ decoded else decoded)"

definition encode_project_path :: "string \<Rightarrow> string" where
  "encode_project_path path =
     (if path = [] then []
      else
        let path1 = (if startswith path ''/'' then drop 1 path else path)
        in ''-'' @ replace_char CHR ''/'' ''-'' path1)"

section \<open>JSON values, exceptions and the world outside the program\<close>

text \<open>
  What \<open>json.loads\<close> returns: \<open>None\<close>, a bool, a number, a str, a list or a dict. A
  dict is kept as the list of its items and read with \<open>map_of\<close>. Python's \<open>None\<close> is
  \<open>JNull\<close> throughout, also where a key is absent and \<open>.get\<close> answers \<open>None\<close>.
  Numbers are only ever tested for truth by this program, so one integer constructor
  stands for them.
\<close>

datatype json =
    JNull
  | JBool bool
  | JNum int
  | JStr string
  | JArr "json list"
  | JObj "(string \<times> json) list"

text \<open>The exceptions the modelled code can meet; a raise is a value \<open>Inl e\<close>.\<close>

datatype error =
    JSONDecodeError
  | OSError
  | AttributeError
  | TypeError
  | IntegrityError
  | MultipleResultsFound
  | DBAPIError
  | HTTPException nat

text \<open>
  A \<open>datetime\<close> is either the value \<open>datetime.fromisoformat\<close> made of a string or a
  reading of the ingestion clock \<open>datetime.utcnow()\<close>, which is kept symbolic.
\<close>

datatype datetime = Parsed int | UtcNow

text \<open>
  Library functions the program calls and does not define: the \<open>json\<close> module,
  \<open>str()\<close>, \<open>datetime.fromisoformat\<close> (\<open>None\<close> for its \<open>ValueError\<close>) and the
  \<open>pathlib\<close> accessors. A path is identified with its string form.
\<close>

record pylib =
  json_dumps :: "json \<Rightarrow> string"
  json_loads :: "string \<Rightarrow> error + json"
  py_str :: "json \<Rightarrow> string"
  fromisoformat :: "string \<Rightarrow> int option"
  path_stem :: "string \<Rightarrow> string"
  path_parent :: "string \<Rightarrow> string"
  path_parts :: "string \<Rightarrow> string list"
  path_join :: "string \<Rightarrow> string \<Rightarrow> string"

text \<open>
  One physical line of a transcript, as \<open>read_jsonl\<close> sees it after \<open>line.strip()\<close>
  and \<open>json.loads\<close>: empty, rejected with \<open>JSONDecodeError\<close>, or decoded.
\<close>

datatype line = Blank | Malformed | Decoded json

text \<open>
  The file system. Reading a file gives the lines read and, when the read breaks off
  (the file cannot be opened or decoded), the exception raised after them. The two
  directory scans are given by the paths they yield and the exception, if any, that ends
  the walk. \<open>find_associated_files\<close> only probes fixed side-file locations; its answer
  is read from here.
\<close>

record fsys =
  file_lines :: "string \<Rightarrow> line list \<times> error option"
  scan_claude_sessions :: "string list \<times> error option"
  scan_codex_sessions :: "string list \<times> error option"
  is_dir :: "string \<Rightarrow> bool"
  path_exists :: "string \<Rightarrow> bool"
  glob_jsonl :: "string \<Rightarrow> error + string list"
  find_associated_files :: "json \<Rightarrow> error + (string \<times> string) list"
  read_text :: "string \<Rightarrow> error + string"

fun truthy :: "json \<Rightarrow> bool" where
  "truthy JNull = False"
| "truthy (JBool b) = b"
| "truthy (JNum n) = (n \<noteq> 0)"
| "truthy (JStr s) = (s \<noteq> [])"
| "truthy (JArr xs) = (xs \<noteq> [])"
| "truthy (JObj d) = (d \<noteq> [])"

definition dict_get :: "(string \<times> json) list \<Rightarrow> string \<Rightarrow> json \<Rightarrow> json" where
  \<comment> \<open>\<open>d.get(k, dflt)\<close> on a dict\<close>
  "dict_get d k dflt = (case map_of d k of Some v \<Rightarrow> v | None \<Rightarrow> dflt)"

definition has_key :: "(string \<times> json) list \<Rightarrow> string \<Rightarrow> bool" where
  \<comment> \<open>\<open>k in d\<close> on a dict\<close>
  "has_key d k = (map_of d k \<noteq> None)"

definition py_get :: "json \<Rightarrow> string \<Rightarrow> json \<Rightarrow> error + json" where
  \<comment> \<open>\<open>x.get(k, dflt)\<close> on any value: only a dict has \<open>get\<close>\<close>
  "py_get x k dflt = (case x of JObj d \<Rightarrow> Inr (dict_get d k dflt) | _ \<Rightarrow> Inl AttributeError)"

fun contains :: "string \<Rightarrow> string \<Rightarrow> bool" where
  \<comment> \<open>\<open>p in s\<close> on two strs\<close>
  "contains [] p = (p = [])"
| "contains (c # cs) p = (startswith (c # cs) p \<or> contains cs p)"

definition py_in :: "string \<Rightarrow> json \<Rightarrow> error + bool" where
  \<comment> \<open>\<open>k in x\<close> for a str \<open>k\<close>: a key of a dict, a substring of a str, an element of a list\<close>
  "py_in k x =
     (case x of
        JObj d \<Rightarrow> Inr (has_key d k)
      | JStr s \<Rightarrow> Inr (contains s k)
      | JArr xs \<Rightarrow> Inr (JStr k \<in> set xs)
      | _ \<Rightarrow> Inl TypeError)"

definition py_index :: "json \<Rightarrow> string \<Rightarrow> error + json" where
  \<comment> \<open>\<open>x[k]\<close> for a str \<open>k\<close> that the caller has found with \<open>in\<close>\<close>
  "py_index x k = (case x of JObj d \<Rightarrow> Inr (dict_get d k JNull) | _ \<Rightarrow> Inl TypeError)"

section \<open>Line-delimited JSON and content helpers (utils/jsonl.py)\<close>

fun yielded :: "line list \<Rightarrow> json list" where
  \<comment> \<open>the loop of \<open>read_jsonl\<close>: blank lines and undecodable lines are passed over\<close>
  "yielded [] = []"
| "yielded (Blank # ls) = yielded ls"
| "yielded (Malformed # ls) = yielded ls"
| "yielded (Decoded v # ls) = v # yielded ls"

definition read_jsonl :: "fsys \<Rightarrow> string \<Rightarrow> json list \<times> error option" where
  \<comment> \<open>the generator: the entries it yields, then the exception it re-raises, if any\<close>
  "read_jsonl F file_path = (case file_lines F file_path of (ls, err) \<Rightarrow> (yielded ls, err))"

definition is_space :: "char \<Rightarrow> bool" where
  \<comment> \<open>the characters \<open>str.strip()\<close> removes\<close>
  "is_space c = (c \<in> set [CHR 0x09, CHR 0x0A, CHR 0x0B, CHR 0x0C, CHR 0x0D,
                           CHR 0x1C, CHR 0x1D, CHR 0x1E, CHR 0x1F, CHR 0x20,
                           CHR 0x85, CHR 0xA0])"

definition strip :: "string \<Rightarrow> string" where
  "strip s = rev (dropWhile is_space (rev (dropWhile is_space s)))"

function remove_tags :: "string \<Rightarrow> string" where
  \<comment> \<open>\<open>re.sub('<[^>]+>', '', text)\<close>: a tag is \<open><\<close>, one or more characters other than
      \<open>>\<close>, then \<open>>\<close>; matches are taken leftmost, one after the other\<close>
  "remove_tags [] = []"
| "remove_tags (c # cs) =
     (if c = CHR ''<'' \<and> takeWhile (\<lambda>x. x \<noteq> CHR ''>'') cs \<noteq> []
           \<and> dropWhile (\<lambda>x. x \<noteq> CHR ''>'') cs \<noteq> []
      then remove_tags (tl (dropWhile (\<lambda>x. x \<noteq> CHR ''>'') cs))
      else c # remove_tags cs)"
  by pat_completeness auto
termination
proof (relation "measure length")
  fix c :: char and cs :: string
  have "length (tl (dropWhile (\<lambda>x. x \<noteq> CHR ''>'') cs)) \<le> length cs"
    using length_dropWhile_le [of "\<lambda>x. x \<noteq> CHR ''>''" cs] by simp
  then show "(tl (dropWhile (\<lambda>x. x \<noteq> CHR ''>'') cs), c # cs) \<in> measure length"
    by simp
qed simp_all

definition strip_xml_tags :: "string \<Rightarrow> string" where
  "strip_xml_tags text = strip (remove_tags text)"

definition SYSTEM_PREFIXES :: "string list" where
  "SYSTEM_PREFIXES =
     [''<local-command-'', ''<command-name>'', ''<environment_context>'', ''<cwd>'',
      ''<system-reminder>'', ''# AGENTS.md instructions'']"

definition is_system_message :: "string \<Rightarrow> bool" where
  "is_system_message text = list_ex (startswith (strip text)) SYSTEM_PREFIXES"

definition create_content_preview :: "string \<Rightarrow> string" where
  \<comment> \<open>called with the serialized content and the default \<open>max_length = 200\<close>\<close>
  "create_content_preview content =
     (if length content \<le> 200 then content else take 200 content @ ''...'')"

definition the_str :: "json \<Rightarrow> string option" where
  "the_str x = (case x of JStr s \<Rightarrow> Some s | _ \<Rightarrow> None)"

fun join :: "string \<Rightarrow> string list \<Rightarrow> string" where
  "join sep [] = []"
| "join sep [s] = s"
| "join sep (s # t # ts) = s @ sep @ join sep (t # ts)"

definition str_join :: "string \<Rightarrow> json list \<Rightarrow> error + string" where
  \<comment> \<open>\<open>sep.join(parts)\<close>: a part that is not a str is a \<open>TypeError\<close>\<close>
  "str_join sep parts =
     (case those (map the_str parts) of None \<Rightarrow> Inl TypeError | Some ss \<Rightarrow> Inr (join sep ss))"

fun text_parts :: "json list \<Rightarrow> json list" where
  \<comment> \<open>the \<open>text\<close> of every dict item of type \<open>text\<close>, in order\<close>
  "text_parts [] = []"
| "text_parts (JObj d # items) =
     (if dict_get d ''type'' JNull = JStr ''text''
      then dict_get d ''text'' (JStr []) # text_parts items
      else text_parts items)"
| "text_parts (_ # items) = text_parts items"

definition extract_text_from_content :: "pylib \<Rightarrow> json \<Rightarrow> error + string" where
  "extract_text_from_content L content =
     (case content of
        JStr s \<Rightarrow> Inr s
      | JObj d \<Rightarrow>
          (case map_of d ''content'' of
             Some (JArr content_list) \<Rightarrow> str_join '' '' (text_parts content_list)
           | Some (JStr s) \<Rightarrow> Inr s
           | _ \<Rightarrow> Inr (json_dumps L content))
      | _ \<Rightarrow> Inr (py_str L content))"

section \<open>What both parsers build\<close>

text \<open>
  A message dict and the session dict of the parsers. A key the source leaves out (the
  model and usage of a user message, \<open>project\<close> before it is set) reads as \<open>JNull\<close>,
  which is what every consumer's \<open>.get\<close> makes of it. \<open>sm_display\<close> and
  \<open>sm_message_count\<close> are written once, after the loop.
\<close>

record message =
  m_type :: string
  m_content :: string
  m_content_preview :: string
  m_timestamp :: datetime
  m_sequence :: nat
  m_uuid :: json
  m_parent_uuid :: json
  m_model :: json
  m_usage_input_tokens :: json
  m_usage_output_tokens :: json

record session_meta =
  sm_id :: json
  sm_source :: string
  sm_cwd :: json
  sm_model :: json
  sm_created_at :: "datetime option"
  sm_updated_at :: "datetime option"
  sm_file_path :: string
  sm_project :: json
  sm_display :: string
  sm_message_count :: nat

text \<open>The local variables of a parser's loop.\<close>

record parse_state =
  ps_messages :: "message list"
  ps_meta :: session_meta
  ps_first_user_message :: "string option"
  ps_sequence :: nat

definition parse_timestamp :: "pylib \<Rightarrow> json \<Rightarrow> datetime option" where
  \<comment> \<open>a falsy \<open>timestamp_str\<close> leaves \<open>timestamp = None\<close>; a string that does not parse,
      or a value without \<open>replace\<close>, is caught and replaced by the clock\<close>
  "parse_timestamp L timestamp_str =
     (if truthy timestamp_str then
        (case timestamp_str of
           JStr s \<Rightarrow>
             (case fromisoformat L (replace_char CHR ''Z'' ''+00:00'' s) of
                Some t \<Rightarrow> Some (Parsed t)
              | None \<Rightarrow> Some UtcNow)
         | _ \<Rightarrow> Some UtcNow)
      else None)"

definition or_utcnow :: "datetime option \<Rightarrow> datetime" where
  \<comment> \<open>\<open>timestamp or datetime.utcnow()\<close>\<close>
  "or_utcnow timestamp = (case timestamp of Some t \<Rightarrow> t | None \<Rightarrow> UtcNow)"

definition unset :: "string option \<Rightarrow> bool" where
  \<comment> \<open>\<open>not first_user_message\<close>\<close>
  "unset s = (case s of None \<Rightarrow> True | Some t \<Rightarrow> t = [])"

definition display_of :: "string option \<Rightarrow> string" where
  \<comment> \<open>\<open>first_user_message or "No user message"\<close>\<close>
  "display_of s = (case s of None \<Rightarrow> ''No user message''
                   | Some t \<Rightarrow> if t = [] then ''No user message'' else t)"

fun run_entries ::
  "(parse_state \<Rightarrow> json \<Rightarrow> error + parse_state) \<Rightarrow> parse_state \<Rightarrow> json list
     \<Rightarrow> error + parse_state" where
  \<comment> \<open>the \<open>async for\<close> over the entries; an exception in the body ends it\<close>
  "run_entries step st [] = Inr st"
| "run_entries step st (e # es) =
     (case step st e of Inl err \<Rightarrow> Inl err | Inr st' \<Rightarrow> run_entries step st' es)"

section \<open>Format A: Claude Code transcripts (services/claude_parser.py)\<close>

definition claude_init :: "pylib \<Rightarrow> string \<Rightarrow> parse_state" where
  "claude_init L file_path =
     \<lparr> ps_messages = [],
       ps_meta = \<lparr> sm_id = JStr (path_stem L file_path), sm_source = ''claude'',
                   sm_cwd = JNull, sm_model = JNull, sm_created_at = None,
                   sm_updated_at = None, sm_file_path = file_path, sm_project = JNull,
                   sm_display = [], sm_message_count = 0 \<rparr>,
       ps_first_user_message = None,
       ps_sequence = 0 \<rparr>"

definition claude_update_meta ::
  "(string \<times> json) list \<Rightarrow> datetime option \<Rightarrow> session_meta \<Rightarrow> session_meta" where
  \<comment> \<open>the block under "Update session metadata", run for every entry\<close>
  "claude_update_meta entry timestamp sm =
     (let sm1 = (if sm_created_at sm = None \<and> timestamp \<noteq> None
                 then sm\<lparr>sm_created_at := timestamp\<rparr> else sm);
          sm2 = (if timestamp \<noteq> None then sm1\<lparr>sm_updated_at := timestamp\<rparr> else sm1)
      in if has_key entry ''cwd'' \<and> \<not> truthy (sm_cwd sm2)
         then sm2\<lparr>sm_cwd := dict_get entry ''cwd'' JNull\<rparr> else sm2)"

definition claude_first_user_message ::
  "pylib \<Rightarrow> json \<Rightarrow> string option \<Rightarrow> error + string option" where
  \<comment> \<open>the block under "Extract first user message for display"\<close>
  "claude_first_user_message L message_content first_user_message =
     (if unset first_user_message then
        (case extract_text_from_content L message_content of
           Inl err \<Rightarrow> Inl err
         | Inr text \<Rightarrow>
             let cleaned = strip_xml_tags text
             in if cleaned \<noteq> []
                   \<and> \<not> startswith cleaned ''Implement the following plan:''
                   \<and> \<not> is_system_message text
                then Inr (Some (take 200 cleaned))
                else Inr first_user_message)
      else Inr first_user_message)"

definition claude_user ::
  "pylib \<Rightarrow> (string \<times> json) list \<Rightarrow> datetime option \<Rightarrow> parse_state
     \<Rightarrow> error + parse_state" where
  "claude_user L entry timestamp st =
     (let message_content = dict_get entry ''message'' (JObj []);
          content_json = json_dumps L message_content
      in case claude_first_user_message L message_content (ps_first_user_message st) of
           Inl err \<Rightarrow> Inl err
         | Inr first \<Rightarrow>
             Inr (st\<lparr> ps_first_user_message := first,
                      ps_messages := ps_messages st @
                        [\<lparr> m_type = ''user'', m_content = content_json,
                           m_content_preview = create_content_preview content_json,
                           m_timestamp = or_utcnow timestamp,
                           m_sequence = ps_sequence st,
                           m_uuid = dict_get entry ''uuid'' JNull,
                           m_parent_uuid = dict_get entry ''parentUuid'' JNull,
                           m_model = JNull, m_usage_input_tokens = JNull,
                           m_usage_output_tokens = JNull \<rparr>],
                      ps_sequence := ps_sequence st + 1 \<rparr>))"

definition claude_model :: "json \<Rightarrow> json \<Rightarrow> error + json" where
  \<comment> \<open>\<open>if not session_meta["model"] and "model" in message_content:
        session_meta["model"] = message_content["model"]\<close>\<close>
  "claude_model message_content model =
     (if \<not> truthy model then
        (case py_in ''model'' message_content of
           Inl err \<Rightarrow> Inl err
         | Inr found \<Rightarrow> if found then py_index message_content ''model'' else Inr model)
      else Inr model)"

definition claude_assistant ::
  "pylib \<Rightarrow> (string \<times> json) list \<Rightarrow> datetime option \<Rightarrow> parse_state
     \<Rightarrow> error + parse_state" where
  "claude_assistant L entry timestamp st =
     (let message_content = dict_get entry ''message'' (JObj []);
          content_json = json_dumps L message_content
      in case claude_model message_content (sm_model (ps_meta st)) of
           Inl err \<Rightarrow> Inl err
         | Inr model \<Rightarrow>
        (case py_get message_content ''usage'' (JObj []) of
           Inl err \<Rightarrow> Inl err
         | Inr usage \<Rightarrow>
        (case py_get usage ''input_tokens'' JNull of
           Inl err \<Rightarrow> Inl err
         | Inr input_tokens \<Rightarrow>
        (case py_get usage ''output_tokens'' JNull of
           Inl err \<Rightarrow> Inl err
         | Inr output_tokens \<Rightarrow>
        (case py_get message_content ''model'' JNull of
           Inl err \<Rightarrow> Inl err
         | Inr message_model \<Rightarrow>
             Inr (st\<lparr> ps_meta := (ps_meta st)\<lparr>sm_model := model\<rparr>,
                      ps_messages := ps_messages st @
                        [\<lparr> m_type = ''assistant'', m_content = content_json,
                           m_content_preview = create_content_preview content_json,
                           m_timestamp = or_utcnow timestamp,
                           m_sequence = ps_sequence st,
                           m_uuid = dict_get entry ''uuid'' JNull,
                           m_parent_uuid = dict_get entry ''parentUuid'' JNull,
                           m_model = message_model,
                           m_usage_input_tokens = input_tokens,
                           m_usage_output_tokens = output_tokens \<rparr>],
                      ps_sequence := ps_sequence st + 1 \<rparr>))))))"

definition claude_entry :: "pylib \<Rightarrow> parse_state \<Rightarrow> json \<Rightarrow> error + parse_state" where
  \<comment> \<open>the loop body; \<open>entry.get\<close> on a value that is no dict raises\<close>
  "claude_entry L st e =
     (case e of
        JObj entry \<Rightarrow>
          let entry_type = dict_get entry ''type'' JNull;
              timestamp = parse_timestamp L (dict_get entry ''timestamp'' JNull);
              st1 = st\<lparr>ps_meta := claude_update_meta entry timestamp (ps_meta st)\<rparr>
          in if entry_type = JStr ''user'' then claude_user L entry timestamp st1
             else if entry_type = JStr ''assistant'' then claude_assistant L entry timestamp st1
             else Inr st1
      | _ \<Rightarrow> Inl AttributeError)"

definition finish_meta :: "parse_state \<Rightarrow> session_meta" where
  \<comment> \<open>"Set display text" and the message count, after the loop\<close>
  "finish_meta st =
     (ps_meta st)\<lparr> sm_display := display_of (ps_first_user_message st),
                   sm_message_count := length (ps_messages st) \<rparr>"

definition parse_claude_stream ::
  "pylib \<Rightarrow> string \<Rightarrow> json list \<times> error option
     \<Rightarrow> error + (session_meta \<times> message list) option" where
  \<comment> \<open>\<open>parse_claude_session\<close> on the entries its reader yields\<close>
  "parse_claude_stream L file_path stream =
     (case run_entries (claude_entry L) (claude_init L file_path) (fst stream) of
        Inl err \<Rightarrow> Inl err
      | Inr st \<Rightarrow>
          (case snd stream of
             Some err \<Rightarrow> Inl err
           | None \<Rightarrow>
               if length (ps_messages st) = 0 then Inr None
               else Inr (Some (finish_meta st, ps_messages st))))"

definition parse_claude_session ::
  "pylib \<Rightarrow> fsys \<Rightarrow> string \<Rightarrow> error + (session_meta \<times> message list) option" where
  "parse_claude_session L F file_path =
     parse_claude_stream L file_path (read_jsonl F file_path)"

definition find_claude_subagents :: "pylib \<Rightarrow> fsys \<Rightarrow> json \<Rightarrow> string \<Rightarrow> error + string list" where
  \<comment> \<open>\<open>project_dir / session_id\<close> needs a str\<close>
  "find_claude_subagents L F session_id project_dir =
     (case session_id of
        JStr sid \<Rightarrow>
          let subagent_dir = path_join L (path_join L project_dir sid) ''subagents''
          in if \<not> path_exists F subagent_dir \<or> \<not> is_dir F subagent_dir then Inr []
             else glob_jsonl F subagent_dir
      | _ \<Rightarrow> Inl TypeError)"

section \<open>Format B: Codex transcripts (services/codex_parser.py)\<close>

definition codex_init :: "string \<Rightarrow> parse_state" where
  "codex_init file_path =
     \<lparr> ps_messages = [],
       ps_meta = \<lparr> sm_id = JNull, sm_source = ''codex'', sm_cwd = JNull, sm_model = JNull,
                   sm_created_at = None, sm_updated_at = None, sm_file_path = file_path,
                   sm_project = JNull, sm_display = [], sm_message_count = 0 \<rparr>,
       ps_first_user_message = None,
       ps_sequence = 0 \<rparr>"

definition fmt :: "pylib \<Rightarrow> json \<Rightarrow> string" where
  \<comment> \<open>a value inside an f-string\<close>
  "fmt L v = (case v of JStr s \<Rightarrow> s | _ \<Rightarrow> py_str L v)"

definition codex_session_meta ::
  "pylib \<Rightarrow> string \<Rightarrow> json \<Rightarrow> datetime option \<Rightarrow> parse_state \<Rightarrow> error + parse_state" where
  "codex_session_meta L file_path payload timestamp st =
     (case payload of
        JObj p \<Rightarrow>
          let sm = (ps_meta st)\<lparr> sm_id := dict_get p ''id'' (JStr (path_stem L file_path)),
                                 sm_cwd := dict_get p ''cwd'' JNull,
                                 sm_project := dict_get p ''cwd'' JNull,
                                 sm_created_at := timestamp,
                                 sm_updated_at := timestamp \<rparr>;
              model_provider = dict_get p ''model_provider'' JNull
          in Inr (st\<lparr>ps_meta :=
                      (if truthy model_provider
                       then sm\<lparr>sm_model := JStr (''Codex ('' @ fmt L model_provider @ '')'')\<rparr>
                       else sm)\<rparr>)
      | _ \<Rightarrow> Inl AttributeError)"

definition codex_message :: "pylib \<Rightarrow> string \<Rightarrow> json \<Rightarrow> datetime option \<Rightarrow> nat \<Rightarrow> message" where
  "codex_message L type payload timestamp sequence =
     (let content_json = json_dumps L payload
      in \<lparr> m_type = type, m_content = content_json,
           m_content_preview = create_content_preview content_json,
           m_timestamp = or_utcnow timestamp, m_sequence = sequence,
           m_uuid = JNull, m_parent_uuid = JNull, m_model = JNull,
           m_usage_input_tokens = JNull, m_usage_output_tokens = JNull \<rparr>)"

fun codex_text_items :: "json list \<Rightarrow> error + string" where
  \<comment> \<open>the loop "Extract text for display" over a list; \<open>text += x\<close> needs a str\<close>
  "codex_text_items [] = Inr []"
| "codex_text_items (JObj item # items) =
     (if dict_get item ''type'' JNull \<in> {JStr ''input_text'', JStr ''text'', JStr ''output_text''}
      then (case dict_get item ''text'' (JStr []) of
              JStr s \<Rightarrow> (case codex_text_items items of
                           Inl err \<Rightarrow> Inl err | Inr rest \<Rightarrow> Inr (s @ rest))
            | _ \<Rightarrow> Inl TypeError)
      else codex_text_items items)"
| "codex_text_items (_ # items) = codex_text_items items"

definition codex_text :: "json \<Rightarrow> error + string" where
  \<comment> \<open>\<open>for item in content_list\<close>: a str yields its characters and a dict its keys, none
      of them a dict; a value that cannot be iterated raises\<close>
  "codex_text content_list =
     (case content_list of
        JArr items \<Rightarrow> codex_text_items items
      | JStr s \<Rightarrow> Inr []
      | JObj d \<Rightarrow> Inr []
      | _ \<Rightarrow> Inl TypeError)"

definition codex_first_user_message :: "json \<Rightarrow> string \<Rightarrow> string option \<Rightarrow> string option" where
  \<comment> \<open>the block under "Capture first user message"\<close>
  "codex_first_user_message role text first_user_message =
     (if role = JStr ''user'' \<and> unset first_user_message \<and> strip text \<noteq> [] then
        (let cleaned = strip_xml_tags text
         in if cleaned \<noteq> [] \<and> \<not> is_system_message text
            then Some (take 200 cleaned) else first_user_message)
      else first_user_message)"

definition codex_append :: "message \<Rightarrow> parse_state \<Rightarrow> parse_state" where
  \<comment> \<open>\<open>messages.append(...); sequence += 1\<close>\<close>
  "codex_append m st =
     st\<lparr>ps_messages := ps_messages st @ [m], ps_sequence := ps_sequence st + 1\<rparr>"

definition codex_response_item ::
  "pylib \<Rightarrow> json \<Rightarrow> datetime option \<Rightarrow> parse_state \<Rightarrow> error + parse_state" where
  "codex_response_item L payload timestamp st =
     (case payload of
        JObj p \<Rightarrow>
          let message_type = dict_get p ''type'' JNull;
              role = dict_get p ''role'' JNull
          in if message_type = JStr ''message''
                \<and> (role = JStr ''user'' \<or> role = JStr ''assistant'') then
               (case codex_text (dict_get p ''content'' (JArr [])) of
                  Inl err \<Rightarrow> Inl err
                | Inr text \<Rightarrow>
                    Inr (codex_append
                           (codex_message L (if role = JStr ''user'' then ''user''
                                             else ''assistant'')
                              payload timestamp (ps_sequence st))
                           (st\<lparr>ps_first_user_message :=
                                 codex_first_user_message role text
                                   (ps_first_user_message st)\<rparr>)))
             else if message_type = JStr ''function_call'' then
               Inr (codex_append
                      (codex_message L ''assistant'' payload timestamp (ps_sequence st)) st)
             else if message_type = JStr ''function_call_output'' then
               Inr (codex_append
                      (codex_message L ''tool_result'' payload timestamp (ps_sequence st)) st)
             else Inr st
      | _ \<Rightarrow> Inl AttributeError)"

definition codex_entry :: "pylib \<Rightarrow> string \<Rightarrow> parse_state \<Rightarrow> json \<Rightarrow> error + parse_state" where
  "codex_entry L file_path st e =
     (case e of
        JObj entry \<Rightarrow>
          let entry_type = dict_get entry ''type'' JNull;
              timestamp = parse_timestamp L (dict_get entry ''timestamp'' JNull);
              payload = dict_get entry ''payload'' (JObj [])
          in (case (if entry_type = JStr ''session_meta''
                    then codex_session_meta L file_path payload timestamp st
                    else if entry_type = JStr ''response_item''
                    then codex_response_item L payload timestamp st
                    else Inr st) of
                Inl err \<Rightarrow> Inl err
              | Inr st1 \<Rightarrow>
                  Inr (if timestamp \<noteq> None
                       then st1\<lparr>ps_meta := (ps_meta st1)\<lparr>sm_updated_at := timestamp\<rparr>\<rparr>
                       else st1))
      | _ \<Rightarrow> Inl AttributeError)"

definition codex_finish_meta :: "pylib \<Rightarrow> string \<Rightarrow> parse_state \<Rightarrow> session_meta" where
  \<comment> \<open>display text, message count and "Fallback session ID if not found"\<close>
  "codex_finish_meta L file_path st =
     (let sm = finish_meta st
      in if \<not> truthy (sm_id sm) then sm\<lparr>sm_id := JStr (path_stem L file_path)\<rparr> else sm)"

definition parse_codex_stream ::
  "pylib \<Rightarrow> string \<Rightarrow> json list \<times> error option
     \<Rightarrow> error + (session_meta \<times> message list) option" where
  \<comment> \<open>\<open>parse_codex_session\<close> on the entries its reader yields; it has no \<open>return None\<close>\<close>
  "parse_codex_stream L file_path stream =
     (case run_entries (codex_entry L file_path) (codex_init file_path) (fst stream) of
        Inl err \<Rightarrow> Inl err
      | Inr st \<Rightarrow>
          (case snd stream of
             Some err \<Rightarrow> Inl err
           | None \<Rightarrow> Inr (Some (codex_finish_meta L file_path st, ps_messages st))))"

definition parse_codex_session ::
  "pylib \<Rightarrow> fsys \<Rightarrow> string \<Rightarrow> error + (session_meta \<times> message list) option" where
  "parse_codex_session L F file_path =
     parse_codex_stream L file_path (read_jsonl F file_path)"

section \<open>The store (models.py) and the unit of work\<close>

text \<open>
  One record per table, with the columns the indexer fills. The surrogate keys of the
  child tables (fresh UUIDs) and \<open>indexed_at\<close> (the insertion clock) are not
  represented. A nullable column holds \<open>JNull\<close> for \<open>NULL\<close>.
\<close>

record session_row =
  s_id :: json
  s_source :: string
  s_project :: json
  s_cwd :: json
  s_model :: json
  s_display :: string
  s_created_at :: datetime
  s_updated_at :: datetime
  s_message_count :: nat
  s_subagent_count :: nat
  s_has_tool_results :: bool
  s_file_path :: string

record message_row =
  r_session_id :: json
  r_agent_id :: json
  r_type :: string
  r_content :: string
  r_content_preview :: string
  r_timestamp :: datetime
  r_sequence :: nat
  r_parent_uuid :: json
  r_model :: json
  r_usage_input_tokens :: json
  r_usage_output_tokens :: json

record subagent_row =
  a_session_id :: json
  a_agent_id :: string
  a_message_count :: nat
  a_first_message :: json
  a_file_path :: "string option"

record associated_file_row =
  f_session_id :: json
  f_file_type :: string
  f_content :: string
  f_file_path :: string

record tables =
  sessions :: "session_row list"
  messages :: "message_row list"
  subagents :: "subagent_row list"
  associated_files :: "associated_file_row list"

text \<open>
  What a database session holds between commits: the objects handed to \<open>db.add\<close>, and
  the change made to a loaded \<open>Subagent\<close> object, which is written back on commit to
  the row of that session and agent.
\<close>

datatype pending =
    AddSession session_row
  | AddMessage message_row
  | AddSubagent subagent_row
  | AddAssociatedFile associated_file_row
  | UpdateSubagent json string subagent_row

text \<open>
  A database session over the store. \<open>driver_accepts\<close> stands for the database
  driver, which may refuse to write a row because of a value it cannot bind; the
  constraints declared in models.py (the primary key of \<open>sessions\<close>, the foreign keys of
  the child tables) are checked by \<open>flush\<close> itself. Every query of the modelled code is
  issued with nothing pending, so queries read the committed tables.
\<close>

record db =
  committed :: tables
  pending_ops :: "pending list"
  driver_accepts :: "pending \<Rightarrow> bool"

definition session_ids :: "tables \<Rightarrow> json set" where
  "session_ids T = set (map s_id (sessions T))"

definition flush_op :: "pending \<Rightarrow> tables \<Rightarrow> error + tables" where
  "flush_op p T =
     (case p of
        AddSession s \<Rightarrow>
          if s_id s \<in> session_ids T then Inl IntegrityError
          else Inr (T\<lparr>sessions := sessions T @ [s]\<rparr>)
      | AddMessage m \<Rightarrow>
          if r_session_id m \<notin> session_ids T then Inl IntegrityError
          else Inr (T\<lparr>messages := messages T @ [m]\<rparr>)
      | AddSubagent a \<Rightarrow>
          if a_session_id a \<notin> session_ids T then Inl IntegrityError
          else Inr (T\<lparr>subagents := subagents T @ [a]\<rparr>)
      | AddAssociatedFile f \<Rightarrow>
          if f_session_id f \<notin> session_ids T then Inl IntegrityError
          else Inr (T\<lparr>associated_files := associated_files T @ [f]\<rparr>)
      | UpdateSubagent sid aid a \<Rightarrow>
          Inr (T\<lparr>subagents :=
                   map (\<lambda>x. if a_session_id x = sid \<and> a_agent_id x = aid then a else x)
                     (subagents T)\<rparr>))"

fun flush :: "(pending \<Rightarrow> bool) \<Rightarrow> pending list \<Rightarrow> tables \<Rightarrow> error + tables" where
  "flush acc [] T = Inr T"
| "flush acc (p # ps) T =
     (if \<not> acc p then Inl DBAPIError
      else (case flush_op p T of Inl err \<Rightarrow> Inl err | Inr T' \<Rightarrow> flush acc ps T'))"

definition db_add :: "pending \<Rightarrow> db \<Rightarrow> db" where
  "db_add p d = d\<lparr>pending_ops := pending_ops d @ [p]\<rparr>"

definition db_commit :: "db \<Rightarrow> (error + unit) \<times> db" where
  \<comment> \<open>all of the unit is written, or none of it\<close>
  "db_commit d =
     (case flush (driver_accepts d) (pending_ops d) (committed d) of
        Inl err \<Rightarrow> (Inl err, d)
      | Inr T \<Rightarrow> (Inr (), d\<lparr>committed := T, pending_ops := []\<rparr>))"

definition db_rollback :: "db \<Rightarrow> db" where
  "db_rollback d = d\<lparr>pending_ops := []\<rparr>"

definition scalar_one_or_none :: "'a list \<Rightarrow> error + 'a option" where
  "scalar_one_or_none rows =
     (case rows of [] \<Rightarrow> Inr None | [x] \<Rightarrow> Inr (Some x) | _ \<Rightarrow> Inl MultipleResultsFound)"

definition session_by_file_path :: "db \<Rightarrow> string \<Rightarrow> error + session_row option" where
  \<comment> \<open>\<open>select(Session).where(Session.file_path == str(file_path))\<close>,
      \<open>scalar_one_or_none()\<close>\<close>
  "session_by_file_path d file_path =
     scalar_one_or_none (filter (\<lambda>s. s_file_path s = file_path) (sessions (committed d)))"

section \<open>The index coordinator (services/indexer.py)\<close>

fun index_of :: "'a \<Rightarrow> 'a list \<Rightarrow> nat option" where
  \<comment> \<open>\<open>parts.index(x)\<close>; \<open>None\<close> for its \<open>ValueError\<close>\<close>
  "index_of x [] = None"
| "index_of x (y # ys) =
     (if x = y then Some 0 else map_option Suc (index_of x ys))"

definition get_project_from_path :: "pylib \<Rightarrow> string \<Rightarrow> json \<Rightarrow> json" where
  "get_project_from_path L file_path cwd =
     (if truthy cwd then cwd
      else
        let parts = path_parts L file_path
        in (case index_of ''projects'' parts of
              Some projects_idx \<Rightarrow>
                if projects_idx + 1 < length parts
                then JStr (decode_project_path (parts ! (projects_idx + 1)))
                else JNull
            | None \<Rightarrow> JNull))"

definition session_of :: "json \<Rightarrow> json \<Rightarrow> session_meta \<Rightarrow> session_row" where
  \<comment> \<open>"Create session record", with the id and the project the caller chose\<close>
  "session_of session_id project session_data =
     \<lparr> s_id = session_id, s_source = sm_source session_data, s_project = project,
       s_cwd = sm_cwd session_data, s_model = sm_model session_data,
       s_display = sm_display session_data,
       s_created_at = or_utcnow (sm_created_at session_data),
       s_updated_at = or_utcnow (sm_updated_at session_data),
       s_message_count = sm_message_count session_data, s_subagent_count = 0,
       s_has_tool_results = False, s_file_path = sm_file_path session_data \<rparr>"

definition claude_message_row :: "json \<Rightarrow> json \<Rightarrow> message \<Rightarrow> message_row" where
  \<comment> \<open>the \<open>Message(...)\<close> of the Claude loop and of the subagent loader\<close>
  "claude_message_row session_id agent_id msg_data =
     \<lparr> r_session_id = session_id, r_agent_id = agent_id, r_type = m_type msg_data,
       r_content = m_content msg_data, r_content_preview = m_content_preview msg_data,
       r_timestamp = m_timestamp msg_data, r_sequence = m_sequence msg_data,
       r_parent_uuid = m_parent_uuid msg_data, r_model = m_model msg_data,
       r_usage_input_tokens = m_usage_input_tokens msg_data,
       r_usage_output_tokens = m_usage_output_tokens msg_data \<rparr>"

definition codex_message_row :: "json \<Rightarrow> message \<Rightarrow> message_row" where
  \<comment> \<open>the \<open>Message(...)\<close> of the Codex loop: model and usage are not passed\<close>
  "codex_message_row session_id msg_data =
     \<lparr> r_session_id = session_id, r_agent_id = JNull, r_type = m_type msg_data,
       r_content = m_content msg_data, r_content_preview = m_content_preview msg_data,
       r_timestamp = m_timestamp msg_data, r_sequence = m_sequence msg_data,
       r_parent_uuid = m_parent_uuid msg_data, r_model = JNull,
       r_usage_input_tokens = JNull, r_usage_output_tokens = JNull \<rparr>"

definition add_messages :: "(message \<Rightarrow> message_row) \<Rightarrow> message list \<Rightarrow> db \<Rightarrow> db" where
  \<comment> \<open>"Batch insert messages"\<close>
  "add_messages row messages_data d =
     foldl (\<lambda>d' msg_data. db_add (AddMessage (row msg_data)) d') d messages_data"

definition bump_subagent_count :: "json \<Rightarrow> pending \<Rightarrow> pending" where
  "bump_subagent_count session_id p =
     (case p of
        AddSession s \<Rightarrow>
          if s_id s = session_id
          then AddSession (s\<lparr>s_subagent_count := s_subagent_count s + 1\<rparr>) else p
      | _ \<Rightarrow> p)"

definition add_subagent :: "pylib \<Rightarrow> json \<Rightarrow> db \<Rightarrow> string \<Rightarrow> db" where
  \<comment> \<open>\<open>db.add(subagent); session.subagent_count += 1\<close>: the session object is the one
      already handed to \<open>db.add\<close>\<close>
  "add_subagent L session_id d subagent_file =
     (let d1 = db_add (AddSubagent \<lparr> a_session_id = session_id,
                                      a_agent_id = path_stem L subagent_file,
                                      a_message_count = 0, a_first_message = JNull,
                                      a_file_path = Some subagent_file \<rparr>) d
      in d1\<lparr>pending_ops := map (bump_subagent_count session_id) (pending_ops d1)\<rparr>)"

definition add_associated_file :: "fsys \<Rightarrow> json \<Rightarrow> db \<Rightarrow> string \<times> string \<Rightarrow> db" where
  \<comment> \<open>a side file that cannot be read is logged and left out\<close>
  "add_associated_file F session_id d entry =
     (case entry of (file_type, file_path_obj) \<Rightarrow>
        if path_exists F file_path_obj then
          (case read_text F file_path_obj of
             Inl err \<Rightarrow> d
           | Inr content \<Rightarrow>
               db_add (AddAssociatedFile \<lparr> f_session_id = session_id, f_file_type = file_type,
                                           f_content = content,
                                           f_file_path = file_path_obj \<rparr>) d)
        else d)"

definition already_indexed :: "bool \<Rightarrow> db \<Rightarrow> string \<Rightarrow> error + bool" where
  \<comment> \<open>"Check if already indexed": no lookup when forcing\<close>
  "already_indexed force d file_path =
     (if \<not> force then
        (case session_by_file_path d file_path of
           Inl err \<Rightarrow> Inl err
         | Inr found \<Rightarrow> Inr (found \<noteq> None))
      else Inr False)"

text \<open>
  The body of the \<open>try\<close> for one file. It returns the database session as the body
  leaves it, with \<open>Inl\<close> for an exception, \<open>Inr None\<close> for a \<open>continue\<close> and
  \<open>Inr (Some n)\<close> after a commit of \<open>n\<close> messages.
\<close>

definition index_claude_file ::
  "pylib \<Rightarrow> fsys \<Rightarrow> bool \<Rightarrow> string \<Rightarrow> db \<Rightarrow> (error + nat option) \<times> db" where
  "index_claude_file L F force file_path d =
     (case already_indexed force d file_path of
        Inl err \<Rightarrow> (Inl err, d)
      | Inr True \<Rightarrow> (Inr None, d)
      | Inr False \<Rightarrow>
     (case parse_claude_session L F file_path of
        Inl err \<Rightarrow> (Inl err, d)
      | Inr None \<Rightarrow> (Inr None, d)
      | Inr (Some (session_data, messages_data)) \<Rightarrow>
          let project = get_project_from_path L file_path (sm_cwd session_data);
              session = session_of (sm_id session_data)
                          (if truthy project then project else sm_project session_data)
                          session_data;
              d1 = db_add (AddSession session) d;
              d2 = add_messages (claude_message_row (s_id session) JNull) messages_data d1
          in
     (case find_claude_subagents L F (s_id session) (path_parent L file_path) of
        Inl err \<Rightarrow> (Inl err, d2)
      | Inr subagent_files \<Rightarrow>
          let d3 = foldl (add_subagent L (s_id session)) d2 subagent_files
          in
     (case find_associated_files F (s_id session) of
        Inl err \<Rightarrow> (Inl err, d3)
      | Inr assoc_files \<Rightarrow>
          let d4 = foldl (add_associated_file F (s_id session)) d3 assoc_files
          in (case db_commit d4 of
                (Inl err, d5) \<Rightarrow> (Inl err, d5)
              | (Inr u, d5) \<Rightarrow> (Inr (Some (length messages_data)), d5))))))"

definition index_codex_file ::
  "pylib \<Rightarrow> fsys \<Rightarrow> bool \<Rightarrow> string \<Rightarrow> db \<Rightarrow> (error + nat option) \<times> db" where
  "index_codex_file L F force file_path d =
     (case already_indexed force d file_path of
        Inl err \<Rightarrow> (Inl err, d)
      | Inr True \<Rightarrow> (Inr None, d)
      | Inr False \<Rightarrow>
     (case parse_codex_session L F file_path of
        Inl err \<Rightarrow> (Inl err, d)
      | Inr None \<Rightarrow> (Inr None, d)
      | Inr (Some (session_data, messages_data)) \<Rightarrow>
          let session_id = JStr (path_stem L file_path);
              session = session_of session_id (sm_project session_data) session_data;
              d1 = db_add (AddSession session) d;
              d2 = add_messages (codex_message_row session_id) messages_data d1
          in (case db_commit d2 of
                (Inl err, d3) \<Rightarrow> (Inl err, d3)
              | (Inr u, d3) \<Rightarrow> (Inr (Some (length messages_data)), d3))))"

fun index_files ::
  "(string \<Rightarrow> db \<Rightarrow> (error + nat option) \<times> db) \<Rightarrow> string list
     \<Rightarrow> db \<times> nat \<times> nat \<times> nat \<Rightarrow> db \<times> nat \<times> nat \<times> nat" where
  \<comment> \<open>the \<open>for\<close> loop with its \<open>try\<close>/\<open>except\<close>, over the paths the scan yields; the
      state is the database session and the three counters\<close>
  "index_files body [] acc = acc"
| "index_files body (file_path # rest) (d, session_count, message_count, error_count) =
     (case body file_path d of
        (Inl err, d') \<Rightarrow>
          index_files body rest (db_rollback d', session_count, message_count, error_count + 1)
      | (Inr None, d') \<Rightarrow>
          index_files body rest (d', session_count, message_count, error_count)
      | (Inr (Some n), d') \<Rightarrow>
          index_files body rest (d', session_count + 1, message_count + n, error_count))"

definition index_scan ::
  "(string \<Rightarrow> db \<Rightarrow> (error + nat option) \<times> db) \<Rightarrow> string list \<times> error option \<Rightarrow> db
     \<Rightarrow> (error + nat \<times> nat \<times> nat) \<times> db" where
  \<comment> \<open>an exception of the scan itself is raised in the loop header, outside the \<open>try\<close>\<close>
  "index_scan body scan d =
     (case index_files body (fst scan) (d, 0, 0, 0) of
        (d', session_count, message_count, error_count) \<Rightarrow>
          (case snd scan of
             Some err \<Rightarrow> (Inl err, d')
           | None \<Rightarrow> (Inr (session_count, message_count, error_count), d')))"

definition index_claude_sessions ::
  "pylib \<Rightarrow> fsys \<Rightarrow> bool \<Rightarrow> db \<Rightarrow> (error + nat \<times> nat \<times> nat) \<times> db" where
  "index_claude_sessions L F force d =
     index_scan (index_claude_file L F force) (scan_claude_sessions F) d"

definition index_codex_sessions ::
  "pylib \<Rightarrow> fsys \<Rightarrow> bool \<Rightarrow> db \<Rightarrow> (error + nat \<times> nat \<times> nat) \<times> db" where
  "index_codex_sessions L F force d =
     index_scan (index_codex_file L F force) (scan_codex_sessions F) d"

record counts =
  claude_sessions :: nat
  codex_sessions :: nat
  total_messages :: nat
  errors :: nat

datatype run_result = AlreadyRunning | Completed counts

text \<open>The module's global indexing state.\<close>

record globals =
  is_indexing :: bool
  last_indexed :: "datetime option"

definition index_all_sessions ::
  "pylib \<Rightarrow> fsys \<Rightarrow> db \<Rightarrow> bool \<Rightarrow> globals \<Rightarrow> run_result \<times> db \<times> globals" where
  \<comment> \<open>an exception escaping one of the two loops is caught: it adds one error to the
      counts gathered so far, which are returned; \<open>finally\<close> clears the flag\<close>
  "index_all_sessions L F d force g =
     (if is_indexing g then (AlreadyRunning, d, g)
      else
        (case index_claude_sessions L F force d of
           (Inl err, d1) \<Rightarrow>
             (Completed \<lparr>claude_sessions = 0, codex_sessions = 0, total_messages = 0,
                         errors = 1\<rparr>,
              d1, g\<lparr>is_indexing := False\<rparr>)
         | (Inr (claude_count, claude_messages, claude_errors), d1) \<Rightarrow>
             (case index_codex_sessions L F force d1 of
                (Inl err, d2) \<Rightarrow>
                  (Completed \<lparr>claude_sessions = claude_count, codex_sessions = 0,
                              total_messages = claude_messages,
                              errors = claude_errors + 1\<rparr>,
                   d2, g\<lparr>is_indexing := False\<rparr>)
              | (Inr (codex_count, codex_messages, codex_errors), d2) \<Rightarrow>
                  (Completed \<lparr>claude_sessions = claude_count, codex_sessions = codex_count,
                              total_messages = claude_messages + codex_messages,
                              errors = claude_errors + codex_errors\<rparr>,
                   d2, g\<lparr>is_indexing := False, last_indexed := Some UtcNow\<rparr>))))"

section \<open>The subagent lazy loader (routers/subagents.py)\<close>

definition subagent_messages :: "db \<Rightarrow> string \<Rightarrow> string \<Rightarrow> message_row list" where
  \<comment> \<open>\<open>msg_query\<close>: the messages of that session and agent, ordered by sequence\<close>
  "subagent_messages d session_id agent_id =
     sort_key r_sequence
       (filter (\<lambda>m. r_session_id m = JStr session_id \<and> r_agent_id m = JStr agent_id)
          (messages (committed d)))"

definition py_slice200 :: "json \<Rightarrow> error + json" where
  \<comment> \<open>\<open>x[:200]\<close>: a str and a list can be sliced\<close>
  "py_slice200 x =
     (case x of
        JStr s \<Rightarrow> Inr (JStr (take 200 s))
      | JArr xs \<Rightarrow> Inr (JArr (take 200 xs))
      | _ \<Rightarrow> Inl TypeError)"

definition first_message_preview :: "pylib \<Rightarrow> message \<Rightarrow> json \<Rightarrow> error + json" where
  \<comment> \<open>the block under "Update subagent metadata" for the first message: the new value of
      \<open>subagent.first_message\<close>\<close>
  "first_message_preview L first_msg old =
     (case json_loads L (m_content first_msg) of
        Inl err \<Rightarrow> Inl err
      | Inr content \<Rightarrow>
          (case py_in ''content'' content of
             Inl err \<Rightarrow> Inl err
           | Inr found \<Rightarrow>
               if found then
                 (case py_get content ''content'' (JStr []) of
                    Inl err \<Rightarrow> Inl err
                  | Inr v \<Rightarrow> py_slice200 v)
               else Inr old))"

definition update_subagent_metadata ::
  "pylib \<Rightarrow> subagent_row \<Rightarrow> message list \<Rightarrow> error + subagent_row" where
  \<comment> \<open>the block under "Update subagent metadata": the \<open>Subagent\<close> object as it
      stands when the block is through\<close>
  "update_subagent_metadata L subagent messages_data =
     (case (case messages_data of
              [] \<Rightarrow> Inr (a_first_message subagent)
            | first_msg # rest \<Rightarrow>
                first_message_preview L first_msg (a_first_message subagent)) of
        Inl err \<Rightarrow> Inl err
      | Inr first_message \<Rightarrow>
          Inr (subagent\<lparr> a_message_count := length messages_data,
                          a_first_message := first_message \<rparr>))"

definition load_subagent ::
  "pylib \<Rightarrow> fsys \<Rightarrow> string \<Rightarrow> string \<Rightarrow> subagent_row \<Rightarrow> string \<Rightarrow> db
     \<Rightarrow> (error + message_row list) \<times> db" where
  \<comment> \<open>the body of the \<open>try\<close> in \<open>get_subagent_messages\<close>\<close>
  "load_subagent L F session_id agent_id subagent file_path d =
     (case parse_claude_session L F file_path of
        Inl err \<Rightarrow> (Inl err, d)
      | Inr None \<Rightarrow> (Inr [], d)
      | Inr (Some (session_data, messages_data)) \<Rightarrow>
          let d1 = add_messages (claude_message_row (JStr session_id) (JStr agent_id))
                     messages_data d
          in (case update_subagent_metadata L subagent messages_data of
                Inl err \<Rightarrow> (Inl err, d1)
              | Inr updated \<Rightarrow>
                  let d2 = db_add (UpdateSubagent (JStr session_id) agent_id updated) d1
                  in (case db_commit d2 of
                        (Inl err, d3) \<Rightarrow> (Inl err, d3)
                      | (Inr u, d3) \<Rightarrow>
                          (Inr (subagent_messages d3 session_id agent_id), d3))))"

definition get_subagent_messages ::
  "pylib \<Rightarrow> fsys \<Rightarrow> string \<Rightarrow> string \<Rightarrow> db \<Rightarrow> (error + message_row list) \<times> db" where
  \<comment> \<open>the request handler; an exception inside the \<open>try\<close> becomes HTTP 500, a missing
      subagent HTTP 404\<close>
  "get_subagent_messages L F session_id agent_id d =
     (case scalar_one_or_none
             (filter (\<lambda>a. a_session_id a = JStr session_id \<and> a_agent_id a = agent_id)
                (subagents (committed d))) of
        Inl err \<Rightarrow> (Inl err, d)
      | Inr None \<Rightarrow> (Inl (HTTPException 404), d)
      | Inr (Some subagent) \<Rightarrow>
          let cached = subagent_messages d session_id agent_id
          in if cached \<noteq> [] then (Inr cached, d)
             else
               (case a_file_path subagent of
                  None \<Rightarrow> (Inr [], d)
                | Some file_path \<Rightarrow>
                    if file_path = [] then (Inr [], d)
                    else
                      (case load_subagent L F session_id agent_id subagent file_path d of
                         (Inl err, d') \<Rightarrow> (Inl (HTTPException 500), d')
                       | (Inr result, d') \<Rightarrow> (Inr result, d'))))"

section \<open>An example world\<close>

text \<open>
  A small installation on which the theorems below are exercised: stand-ins for the
  library functions that are right on the example's paths and values, four Claude
  transcripts (a conversation that opens with a progress marker, an unreadable file, a
  second conversation, a file holding only a snapshot marker), two Codex transcripts, two subagent transcripts (the second
  opens with a record that has no message), and an empty store whose driver accepts
  every row.
\<close>

definition example_name :: "string \<Rightarrow> string" where
  "example_name p = rev (takeWhile (\<lambda>c. c \<noteq> CHR ''/'') (rev p))"

definition example_stem :: "string \<Rightarrow> string" where
  "example_stem p =
     (let n = example_name p
      in if CHR ''.'' \<in> set n then rev (drop 1 (dropWhile (\<lambda>c. c \<noteq> CHR ''.'') (rev n)))
         else n)"

definition example_parent :: "string \<Rightarrow> string" where
  "example_parent p = rev (drop 1 (dropWhile (\<lambda>c. c \<noteq> CHR ''/'') (rev p)))"

fun example_split :: "string \<Rightarrow> string \<Rightarrow> string list" where
  "example_split acc [] = [rev acc]"
| "example_split acc (c # cs) =
     (if c = CHR ''/'' then rev acc # example_split [] cs else example_split (c # acc) cs)"

definition example_parts :: "string \<Rightarrow> string list" where
  "example_parts p = (case p of [] \<Rightarrow> [] | c # cs \<Rightarrow>
     if c = CHR ''/'' then ''/'' # example_split [] cs else example_split [] p)"

definition example_number :: "int \<Rightarrow> string" where
  "example_number n = (if 0 \<le> n \<and> n < 10 then [''0123456789'' ! nat n] else ''<number>'')"

fun example_dumps :: "json \<Rightarrow> string" where
  \<comment> \<open>a rendering that stands in for \<open>json.dumps\<close>: it keeps the keys, the strings
      and the one-digit numbers\<close>
  "example_dumps JNull = ''null''"
| "example_dumps (JBool b) = (if b then ''true'' else ''false'')"
| "example_dumps (JNum n) = example_number n"
| "example_dumps (JStr s) = s"
| "example_dumps (JArr xs) = ''['' @ concat (map (\<lambda>x. example_dumps x @ '', '') xs) @ '']''"
| "example_dumps (JObj d) =
     ''{'' @ concat (map (\<lambda>kv. fst kv @ '': '' @ example_dumps (snd kv) @ '', '') d) @ ''}''"

definition example_loads :: "string \<Rightarrow> error + json" where
  \<comment> \<open>stands in for \<open>json.loads\<close>: it gives back the two payloads whose rendering the
      example reads again, the first messages of the two subagent transcripts\<close>
  "example_loads s =
     (case find (\<lambda>v. example_dumps v = s)
             [JObj [], JObj [(''role'', JStr ''user''), (''content'', JStr ''Find the bug'')]] of
        Some v \<Rightarrow> Inr v
      | None \<Rightarrow> Inl JSONDecodeError)"

definition example_lib :: pylib where
  "example_lib =
     \<lparr> json_dumps = example_dumps,
       json_loads = example_loads,
       py_str = (\<lambda>v. ''None''),
       fromisoformat = (\<lambda>s. if s = ''2025-01-02T03:04:05+00:00'' then Some 1735787045
                             else None),
       path_stem = example_stem,
       path_parent = example_parent,
       path_parts = example_parts,
       path_join = (\<lambda>a b. a @ ''/'' @ b) \<rparr>"

definition user_record :: "json \<Rightarrow> json" where
  "user_record content =
     JObj [(''type'', JStr ''user''), (''timestamp'', JStr ''2025-01-02T03:04:05Z''),
           (''cwd'', JStr ''/work/app''),
           (''message'', JObj [(''role'', JStr ''user''), (''content'', content)])]"

definition assistant_record :: json where
  "assistant_record =
     JObj [(''type'', JStr ''assistant''),
           (''message'', JObj [(''role'', JStr ''assistant''), (''model'', JStr ''claude-x''),
                               (''content'', JArr []),
                               (''usage'', JObj [(''input_tokens'', JNum 3),
                                                 (''output_tokens'', JNum 5)])])]"

definition snapshot_record :: json where
  "snapshot_record = JObj [(''type'', JStr ''file-history-snapshot'')]"

definition progress_record :: json where
  "progress_record = JObj [(''type'', JStr ''progress''), (''cwd'', JStr ''/tmp/hook'')]"

definition codex_meta_record :: "string \<Rightarrow> json" where
  "codex_meta_record sid =
     JObj [(''type'', JStr ''session_meta''),
           (''payload'', JObj [(''id'', JStr sid), (''cwd'', JStr ''/work/app''),
                               (''model_provider'', JStr ''openai'')])]"

definition codex_user_record :: "string \<Rightarrow> json" where
  "codex_user_record text =
     JObj [(''type'', JStr ''response_item''),
           (''payload'', JObj [(''type'', JStr ''message''), (''role'', JStr ''user''),
                               (''content'', JArr [JObj [(''type'', JStr ''input_text''),
                                                         (''text'', JStr text)]])])]"

definition example_files :: "(string \<times> (line list \<times> error option)) list" where
  "example_files =
     [(''/claude/projects/-work-app/s1.jsonl'',
         ([Decoded progress_record, Blank, Malformed,
           Decoded (user_record (JStr ''<system-reminder>be brief</system-reminder>'')),
           Decoded (user_record (JArr [JObj [(''type'', JStr ''text''),
                                             (''text'', JStr ''Fix the bug'')]])),
           Decoded assistant_record], None)),
      (''/claude/projects/-work-app/s2.jsonl'', ([], Some OSError)),
      (''/claude/projects/-work-app/s3.jsonl'',
         ([Decoded (user_record (JStr ''Second session''))], None)),
      (''/claude/projects/-work-app/s4.jsonl'', ([Decoded snapshot_record], None)),
      (''/claude/projects/-work-app/s1/subagents/agent-a1.jsonl'',
         ([Decoded (JObj [(''type'', JStr ''user''),
                          (''message'', JObj [(''role'', JStr ''user''),
                                              (''content'', JStr ''Find the bug'')])]),
           Decoded assistant_record], None)),
      (''/claude/projects/-work-app/s3/subagents/agent-b2.jsonl'',
         ([Decoded (JObj [(''type'', JStr ''user'')]), Decoded assistant_record], None)),
      (''/codex/sessions/2025/01/02/rollout-1.jsonl'',
         ([Decoded (codex_meta_record ''abc''),
           Decoded (codex_user_record ''Implement the following plan: ship it'')], None)),
      (''/codex/sessions/2025/01/02/rollout-2.jsonl'',
         ([Decoded (codex_meta_record ''def'')], None))]"

definition example_fs :: fsys where
  "example_fs =
     \<lparr> file_lines = (\<lambda>p. case map_of example_files p of
                              Some content \<Rightarrow> content | None \<Rightarrow> ([], Some OSError)),
       scan_claude_sessions =
         ([''/claude/projects/-work-app/s1.jsonl'', ''/claude/projects/-work-app/s2.jsonl'',
           ''/claude/projects/-work-app/s3.jsonl'', ''/claude/projects/-work-app/s4.jsonl''],
          None),
       scan_codex_sessions =
         ([''/codex/sessions/2025/01/02/rollout-1.jsonl'',
           ''/codex/sessions/2025/01/02/rollout-2.jsonl''], None),
       is_dir = (\<lambda>p. p \<in> {''/claude/projects/-work-app/s1/subagents'',
                             ''/claude/projects/-work-app/s3/subagents''}),
       path_exists = (\<lambda>p. p \<in> {''/claude/projects/-work-app/s1/subagents'',
                                  ''/claude/projects/-work-app/s3/subagents''}),
       glob_jsonl = (\<lambda>p. if p = ''/claude/projects/-work-app/s1/subagents''
                          then Inr [''/claude/projects/-work-app/s1/subagents/agent-a1.jsonl'']
                          else if p = ''/claude/projects/-work-app/s3/subagents''
                          then Inr [''/claude/projects/-work-app/s3/subagents/agent-b2.jsonl'']
                          else Inr []),
       find_associated_files = (\<lambda>session_id. Inr []),
       read_text = (\<lambda>p. Inl OSError) \<rparr>"

definition empty_store :: db where
  "empty_store =
     \<lparr> committed = \<lparr>sessions = [], messages = [], subagents = [], associated_files = []\<rparr>,
       pending_ops = [],
       driver_accepts = (\<lambda>p. True) \<rparr>"

definition idle :: globals where
  "idle = \<lparr>is_indexing = False, last_indexed = None\<rparr>"

text \<open>The store after one incremental run over the example, from the empty store.\<close>

definition indexed_tables :: tables where
  "indexed_tables =
     \<lparr>sessions =
         [\<lparr>s_id = JStr ''s1'', s_source = ''claude'',
             s_project = JStr ''/tmp/hook'', s_cwd = JStr ''/tmp/hook'',
             s_model = JStr ''claude-x'', s_display = ''Fix the bug'',
             s_created_at = Parsed 1735787045, s_updated_at = Parsed 1735787045,
             s_message_count = 3, s_subagent_count = 1,
             s_has_tool_results = False,
             s_file_path = ''/claude/projects/-work-app/s1.jsonl''\<rparr>,
          \<lparr>s_id = JStr ''s3'', s_source = ''claude'',
             s_project = JStr ''/work/app'', s_cwd = JStr ''/work/app'',
             s_model = JNull, s_display = ''Second session'',
             s_created_at = Parsed 1735787045, s_updated_at = Parsed 1735787045,
             s_message_count = 1, s_subagent_count = 1,
             s_has_tool_results = False,
             s_file_path = ''/claude/projects/-work-app/s3.jsonl''\<rparr>,
          \<lparr>s_id = JStr ''rollout-1'', s_source = ''codex'',
             s_project = JStr ''/work/app'', s_cwd = JStr ''/work/app'',
             s_model = JStr ''Codex (openai)'',
             s_display = ''Implement the following plan: ship it'',
             s_created_at = UtcNow, s_updated_at = UtcNow, s_message_count = 1,
             s_subagent_count = 0, s_has_tool_results = False,
             s_file_path = ''/codex/sessions/2025/01/02/rollout-1.jsonl''\<rparr>,
          \<lparr>s_id = JStr ''rollout-2'', s_source = ''codex'',
             s_project = JStr ''/work/app'', s_cwd = JStr ''/work/app'',
             s_model = JStr ''Codex (openai)'', s_display = ''No user message'',
             s_created_at = UtcNow, s_updated_at = UtcNow, s_message_count = 0,
             s_subagent_count = 0, s_has_tool_results = False,
             s_file_path = ''/codex/sessions/2025/01/02/rollout-2.jsonl''\<rparr>],
         messages =
           [\<lparr>r_session_id = JStr ''s1'', r_agent_id = JNull, r_type = ''user'',
               r_content =
                 ''{role: user, content: <system-reminder>be brief</system-reminder>, }'',
               r_content_preview =
                 ''{role: user, content: <system-reminder>be brief</system-reminder>, }'',
               r_timestamp = Parsed 1735787045, r_sequence = 0,
               r_parent_uuid = JNull, r_model = JNull,
               r_usage_input_tokens = JNull, r_usage_output_tokens = JNull\<rparr>,
            \<lparr>r_session_id = JStr ''s1'', r_agent_id = JNull, r_type = ''user'',
               r_content =
                 ''{role: user, content: [{type: text, text: Fix the bug, }, ], }'',
               r_content_preview =
                 ''{role: user, content: [{type: text, text: Fix the bug, }, ], }'',
               r_timestamp = Parsed 1735787045, r_sequence = 1,
               r_parent_uuid = JNull, r_model = JNull,
               r_usage_input_tokens = JNull, r_usage_output_tokens = JNull\<rparr>,
            \<lparr>r_session_id = JStr ''s1'', r_agent_id = JNull,
               r_type = ''assistant'',
               r_content =
                 ''{role: assistant, model: claude-x, content: [], usage: {input_tokens: 3, output_tokens: 5, }, }'',
               r_content_preview =
                 ''{role: assistant, model: claude-x, content: [], usage: {input_tokens: 3, output_tokens: 5, }, }'',
               r_timestamp = UtcNow, r_sequence = 2, r_parent_uuid = JNull,
               r_model = JStr ''claude-x'', r_usage_input_tokens = JNum 3,
               r_usage_output_tokens = JNum 5\<rparr>,
            \<lparr>r_session_id = JStr ''s3'', r_agent_id = JNull, r_type = ''user'',
               r_content = ''{role: user, content: Second session, }'',
               r_content_preview = ''{role: user, content: Second session, }'',
               r_timestamp = Parsed 1735787045, r_sequence = 0,
               r_parent_uuid = JNull, r_model = JNull,
               r_usage_input_tokens = JNull, r_usage_output_tokens = JNull\<rparr>,
            \<lparr>r_session_id = JStr ''rollout-1'', r_agent_id = JNull,
               r_type = ''user'',
               r_content =
                 ''{type: message, role: user, content: [{type: input_text, text: Implement the following plan: ship it, }, ], }'',
               r_content_preview =
                 ''{type: message, role: user, content: [{type: input_text, text: Implement the following plan: ship it, }, ], }'',
               r_timestamp = UtcNow, r_sequence = 0, r_parent_uuid = JNull,
               r_model = JNull, r_usage_input_tokens = JNull,
               r_usage_output_tokens = JNull\<rparr>],
         subagents =
           [\<lparr>a_session_id = JStr ''s1'', a_agent_id = ''agent-a1'',
               a_message_count = 0, a_first_message = JNull,
               a_file_path =
                 Some
                  ''/claude/projects/-work-app/s1/subagents/agent-a1.jsonl''\<rparr>,
            \<lparr>a_session_id = JStr ''s3'', a_agent_id = ''agent-b2'',
               a_message_count = 0, a_first_message = JNull,
               a_file_path =
                 Some
                  ''/claude/projects/-work-app/s3/subagents/agent-b2.jsonl''\<rparr>],
         associated_files = []\<rparr>"

definition indexed_store :: db where
  "indexed_store = empty_store\<lparr>committed := indexed_tables\<rparr>"

section \<open>Notions used to state the properties\<close>

definition seq_inv :: "parse_state \<Rightarrow> bool" where
  \<comment> \<open>the loop invariant of both parsers: the messages so far are numbered from 0 up to
      the counter\<close>
  "seq_inv st = (map m_sequence (ps_messages st) = [0..<ps_sequence st])"

definition besides_clock_and_cwd :: "session_meta \<Rightarrow> session_meta" where
  \<comment> \<open>a session dict with its two timestamps and its working directory blanked\<close>
  "besides_clock_and_cwd sm =
     sm\<lparr>sm_created_at := None, sm_updated_at := None, sm_cwd := JNull\<rparr>"

definition conversation ::
  "session_meta \<times> message list \<Rightarrow> session_meta \<times> message list" where
  \<comment> \<open>a parser's output without the three fields that every record may feed\<close>
  "conversation parsed = (besides_clock_and_cwd (fst parsed), snd parsed)"

definition same_conversation :: "parse_state \<Rightarrow> parse_state \<Rightarrow> bool" where
  "same_conversation s t =
     (ps_messages s = ps_messages t \<and> ps_first_user_message s = ps_first_user_message t
      \<and> ps_sequence s = ps_sequence t
      \<and> besides_clock_and_cwd (ps_meta s) = besides_clock_and_cwd (ps_meta t))"

text \<open>
  The display-text rule in the words of the specification: the first user message that
  qualifies, cleaned of markup tags and cut to 200 characters, else the sentinel. The
  user messages of a file are given with the text each parser extracts from them.
\<close>

definition qualifies :: "string \<Rightarrow> bool" where
  \<comment> \<open>non-empty once cleaned, not opening with the plan-injection preamble, not opening
      with a system prefix\<close>
  "qualifies text =
     (strip_xml_tags text \<noteq> []
      \<and> \<not> startswith (strip_xml_tags text) ''Implement the following plan:''
      \<and> \<not> is_system_message text)"

definition qualifies_without_plan_test :: "string \<Rightarrow> bool" where
  \<comment> \<open>non-empty, also once cleaned, and not opening with a system prefix\<close>
  "qualifies_without_plan_test text =
     (strip text \<noteq> [] \<and> strip_xml_tags text \<noteq> [] \<and> \<not> is_system_message text)"

definition display_rule :: "(string \<Rightarrow> bool) \<Rightarrow> (error + string) list \<Rightarrow> string" where
  "display_rule ok texts =
     (case find (\<lambda>t. case t of Inr text \<Rightarrow> ok text | Inl err \<Rightarrow> False) texts of
        Some (Inr text) \<Rightarrow> take 200 (strip_xml_tags text)
      | _ \<Rightarrow> ''No user message'')"

definition claude_user_text :: "pylib \<Rightarrow> json \<Rightarrow> (error + string) option" where
  \<comment> \<open>the text of a Format A record if it is a user message\<close>
  "claude_user_text L e =
     (case e of
        JObj entry \<Rightarrow>
          if dict_get entry ''type'' JNull = JStr ''user''
          then Some (extract_text_from_content L (dict_get entry ''message'' (JObj [])))
          else None
      | _ \<Rightarrow> None)"

definition codex_user_text :: "json \<Rightarrow> (error + string) option" where
  \<comment> \<open>the text of a Format B record if it is a message of role user\<close>
  "codex_user_text e =
     (case e of
        JObj entry \<Rightarrow>
          if dict_get entry ''type'' JNull = JStr ''response_item'' then
            (case dict_get entry ''payload'' (JObj []) of
               JObj p \<Rightarrow>
                 if dict_get p ''type'' JNull = JStr ''message''
                    \<and> dict_get p ''role'' JNull = JStr ''user''
                 then Some (codex_text (dict_get p ''content'' (JArr [])))
                 else None
             | _ \<Rightarrow> None)
          else None
      | _ \<Rightarrow> None)"

text \<open>
  The id a Format B file's \<open>session_meta\<close> records carry: each such record offers its
  payload's \<open>id\<close> (the filename stem if the payload has none), and the last one counts.
\<close>

definition codex_meta_id :: "pylib \<Rightarrow> string \<Rightarrow> json \<Rightarrow> json option" where
  "codex_meta_id L file_path e =
     (case e of
        JObj entry \<Rightarrow>
          if dict_get entry ''type'' JNull = JStr ''session_meta'' then
            (case dict_get entry ''payload'' (JObj []) of
               JObj p \<Rightarrow> Some (dict_get p ''id'' (JStr (path_stem L file_path)))
             | _ \<Rightarrow> None)
          else None
      | _ \<Rightarrow> None)"

definition codex_id_rule :: "pylib \<Rightarrow> string \<Rightarrow> json list \<Rightarrow> json" where
  "codex_id_rule L file_path entries =
     (case rev (List.map_filter (codex_meta_id L file_path) entries) of
        [] \<Rightarrow> JStr (path_stem L file_path)
      | last_id # earlier \<Rightarrow>
          if truthy last_id then last_id else JStr (path_stem L file_path))"

text \<open>
  The unit of work one file contributes, as a list of pending operations: the session
  first, then its children. \<open>claude_unit\<close> and \<open>codex_unit\<close> retrace what the two
  per-file bodies hand to \<open>db.add\<close> between parsing and commit; they depend on the file
  system only, not on the store.
\<close>

definition child_of :: "json \<Rightarrow> pending \<Rightarrow> bool" where
  "child_of session_id p =
     (case p of
        AddSession s \<Rightarrow> False
      | AddMessage m \<Rightarrow> r_session_id m = session_id
      | AddSubagent a \<Rightarrow> a_session_id a = session_id
      | AddAssociatedFile f \<Rightarrow> f_session_id f = session_id
      | UpdateSubagent sid aid a \<Rightarrow> False)"

definition unit_ok :: "json \<Rightarrow> string \<Rightarrow> pending list \<Rightarrow> bool" where
  "unit_ok session_id file_path ops =
     (\<exists>s children. ops = AddSession s # children \<and> s_id s = session_id
        \<and> s_file_path s = file_path \<and> list_all (child_of session_id) children)"

definition subagent_ops :: "pylib \<Rightarrow> json \<Rightarrow> string list \<Rightarrow> pending list \<Rightarrow> pending list" where
  "subagent_ops L session_id subagent_files ops =
     foldl (\<lambda>ops' subagent_file.
              map (bump_subagent_count session_id)
                (ops' @ [AddSubagent \<lparr> a_session_id = session_id,
                                       a_agent_id = path_stem L subagent_file,
                                       a_message_count = 0, a_first_message = JNull,
                                       a_file_path = Some subagent_file \<rparr>]))
       ops subagent_files"

definition associated_ops :: "fsys \<Rightarrow> json \<Rightarrow> (string \<times> string) list \<Rightarrow> pending list" where
  "associated_ops F session_id assoc_files =
     concat (map (\<lambda>entry.
        case entry of (file_type, file_path_obj) \<Rightarrow>
          if path_exists F file_path_obj then
            (case read_text F file_path_obj of
               Inl err \<Rightarrow> []
             | Inr content \<Rightarrow>
                 [AddAssociatedFile \<lparr> f_session_id = session_id, f_file_type = file_type,
                                       f_content = content, f_file_path = file_path_obj \<rparr>])
          else []) assoc_files)"

definition claude_session_row :: "pylib \<Rightarrow> string \<Rightarrow> session_meta \<Rightarrow> session_row" where
  "claude_session_row L file_path session_data =
     (let project = get_project_from_path L file_path (sm_cwd session_data)
      in session_of (sm_id session_data)
           (if truthy project then project else sm_project session_data) session_data)"

definition claude_unit ::
  "pylib \<Rightarrow> fsys \<Rightarrow> string \<Rightarrow> session_meta \<Rightarrow> message list \<Rightarrow> error + pending list" where
  "claude_unit L F file_path session_data messages_data =
     (let session = claude_session_row L file_path session_data;
          ops2 = AddSession session
                   # map (\<lambda>m. AddMessage (claude_message_row (s_id session) JNull m))
                       messages_data
      in case find_claude_subagents L F (s_id session) (path_parent L file_path) of
           Inl err \<Rightarrow> Inl err
         | Inr subagent_files \<Rightarrow>
             (case find_associated_files F (s_id session) of
                Inl err \<Rightarrow> Inl err
              | Inr assoc_files \<Rightarrow>
                  Inr (subagent_ops L (s_id session) subagent_files ops2
                         @ associated_ops F (s_id session) assoc_files)))"

definition codex_unit :: "pylib \<Rightarrow> string \<Rightarrow> session_meta \<Rightarrow> message list \<Rightarrow> pending list" where
  "codex_unit L file_path session_data messages_data =
     AddSession (session_of (JStr (path_stem L file_path)) (sm_project session_data)
                   session_data)
       # map (\<lambda>m. AddMessage (codex_message_row (JStr (path_stem L file_path)) m))
           messages_data"

text \<open>
  A later state of the same database session: nothing pending in either, the same
  driver, and a sessions table that has only been extended.
\<close>

definition grows :: "db \<Rightarrow> db \<Rightarrow> bool" where
  "grows d d' =
     (pending_ops d = [] \<and> pending_ops d' = [] \<and> driver_accepts d' = driver_accepts d
      \<and> (\<exists>new. sessions (committed d') = sessions (committed d) @ new))"

definition quiet :: "(string \<Rightarrow> db \<Rightarrow> (error + nat option) \<times> db) \<Rightarrow> string \<Rightarrow> db \<Rightarrow> bool" where
  \<comment> \<open>processing the file in this state indexes nothing: it is skipped or it fails\<close>
  "quiet body file_path d = (\<forall>n. fst (body file_path d) \<noteq> Inr (Some n))"

text \<open>
  What a file contributes, whatever the store holds: an exception, nothing (an empty
  session), or a unit and its number of messages.
\<close>

definition claude_plan :: "pylib \<Rightarrow> fsys \<Rightarrow> string \<Rightarrow> error + (pending list \<times> nat) option" where
  "claude_plan L F file_path =
     (case parse_claude_session L F file_path of
        Inl err \<Rightarrow> Inl err
      | Inr None \<Rightarrow> Inr None
      | Inr (Some parsed) \<Rightarrow>
          (case claude_unit L F file_path (fst parsed) (snd parsed) of
             Inl err \<Rightarrow> Inl err
           | Inr unit \<Rightarrow> Inr (Some (unit, length (snd parsed)))))"

definition codex_plan :: "pylib \<Rightarrow> fsys \<Rightarrow> string \<Rightarrow> error + (pending list \<times> nat) option" where
  "codex_plan L F file_path =
     (case parse_codex_session L F file_path of
        Inl err \<Rightarrow> Inl err
      | Inr None \<Rightarrow> Inr None
      | Inr (Some parsed) \<Rightarrow>
          Inr (Some (codex_unit L file_path (fst parsed) (snd parsed), length (snd parsed))))"

text \<open>
  The shape both per-file bodies have when they start with nothing pending: look the
  path up unless forcing, skip it if found, else take the file's plan and commit its
  unit. After an exception the session still holds whatever had been added.
\<close>

definition per_file_body ::
  "bool \<Rightarrow> (string \<Rightarrow> error + (pending list \<times> nat) option)
     \<Rightarrow> (string \<Rightarrow> db \<Rightarrow> (error + nat option) \<times> db) \<Rightarrow> bool" where
  "per_file_body force plan body =
     (\<forall>file_path d. pending_ops d = [] \<longrightarrow>
        (\<exists>ops. body file_path d =
           (case already_indexed force d file_path of
              Inl err \<Rightarrow> (Inl err, d)
            | Inr found \<Rightarrow>
                if found then (Inr None, d)
                else
                  (case plan file_path of
                     Inl err \<Rightarrow> (Inl err, d\<lparr>pending_ops := ops\<rparr>)
                   | Inr None \<Rightarrow> (Inr None, d)
                   | Inr (Some planned) \<Rightarrow>
                       (case flush (driver_accepts d) (fst planned) (committed d) of
                          Inl err \<Rightarrow> (Inl err, d\<lparr>pending_ops := fst planned\<rparr>)
                        | Inr T \<Rightarrow>
                            (Inr (Some (snd planned)),
                             d\<lparr>committed := T, pending_ops := []\<rparr>)))))
        \<and> (\<forall>planned. plan file_path = Inr (Some planned) \<longrightarrow>
               (\<exists>session_id. unit_ok session_id file_path (fst planned))))"

text \<open>
  What the subagent loader writes for a parsed transcript: the message rows tagged with
  session and agent, the unit it commits, and the store after the commit.
\<close>

definition loaded_rows :: "string \<Rightarrow> string \<Rightarrow> message list \<Rightarrow> message_row list" where
  "loaded_rows session_id agent_id messages_data =
     map (claude_message_row (JStr session_id) (JStr agent_id)) messages_data"

definition loaded_unit ::
  "string \<Rightarrow> string \<Rightarrow> subagent_row \<Rightarrow> message list \<Rightarrow> pending list" where
  "loaded_unit session_id agent_id updated messages_data =
     map AddMessage (loaded_rows session_id agent_id messages_data)
       @ [UpdateSubagent (JStr session_id) agent_id updated]"

definition materialized ::
  "db \<Rightarrow> string \<Rightarrow> string \<Rightarrow> subagent_row \<Rightarrow> message list \<Rightarrow> db" where
  "materialized d session_id agent_id updated messages_data =
     d\<lparr>committed := (committed d)
          \<lparr>messages := messages (committed d) @ loaded_rows session_id agent_id messages_data,
           subagents :=
             map (\<lambda>x. if a_session_id x = JStr session_id \<and> a_agent_id x = agent_id
                       then updated else x)
               (subagents (committed d))\<rparr>\<rparr>"

section \<open>Unfolding the model on concrete inputs\<close>

lemmas parser_defs =
  startswith_def replace_char_def dict_get_def has_key_def py_get_def py_in_def py_index_def
  read_jsonl_def is_space_def strip_def strip_xml_tags_def SYSTEM_PREFIXES_def
  is_system_message_def create_content_preview_def the_str_def str_join_def
  extract_text_from_content_def parse_timestamp_def or_utcnow_def unset_def display_of_def
  claude_init_def claude_update_meta_def claude_first_user_message_def claude_user_def
  claude_model_def claude_assistant_def claude_entry_def finish_meta_def
  parse_claude_stream_def parse_claude_session_def find_claude_subagents_def
  codex_init_def fmt_def codex_session_meta_def codex_message_def codex_text_def
  codex_first_user_message_def codex_append_def codex_response_item_def codex_entry_def
  codex_finish_meta_def parse_codex_stream_def parse_codex_session_def

lemmas store_defs =
  session_ids_def flush_op_def db_add_def db_commit_def db_rollback_def
  scalar_one_or_none_def session_by_file_path_def get_project_from_path_def
  decode_project_path_def session_of_def claude_message_row_def codex_message_row_def
  add_messages_def bump_subagent_count_def add_subagent_def add_associated_file_def
  already_indexed_def index_claude_file_def index_codex_file_def index_scan_def
  index_claude_sessions_def index_codex_sessions_def index_all_sessions_def
  subagent_messages_def py_slice200_def first_message_preview_def load_subagent_def
  get_subagent_messages_def update_subagent_metadata_def

lemmas example_defs =
  example_name_def example_stem_def example_parent_def example_parts_def example_lib_def
  example_number_def example_loads_def
  user_record_def assistant_record_def snapshot_record_def progress_record_def
  codex_meta_record_def codex_user_record_def example_files_def example_fs_def
  empty_store_def idle_def

lemma example_parse_s1:
  "\<exists>session msgs.
     parse_claude_session example_lib example_fs ''/claude/projects/-work-app/s1.jsonl''
       = Inr (Some (session, msgs))
     \<and> length msgs = 3 \<and> sm_display session = ''Fix the bug''"
  by (simp add: parser_defs example_defs Let_def)

lemma example_parse_rollout_1:
  "\<exists>session msgs.
     parse_codex_session example_lib example_fs ''/codex/sessions/2025/01/02/rollout-1.jsonl''
       = Inr (Some (session, msgs))
     \<and> length msgs = 1 \<and> sm_display session = ''Implement the following plan: ship it''
     \<and> sm_id session = JStr ''abc''"
  by (simp add: parser_defs example_defs Let_def)

section \<open>Loops over entries\<close>

lemma yielded_append: "yielded (xs @ ys) = yielded xs @ yielded ys"
  by (induction xs rule: yielded.induct) simp_all

lemma run_entries_append:
  "run_entries step st (xs @ ys) =
     (case run_entries step st xs of Inl err \<Rightarrow> Inl err | Inr st' \<Rightarrow> run_entries step st' ys)"
  by (induction xs arbitrary: st) (auto split: sum.splits)

lemma example_first_run:
  "index_all_sessions example_lib example_fs empty_store False idle
     = (Completed \<lparr>claude_sessions = 2, codex_sessions = 2, total_messages = 5, errors = 1\<rparr>,
        indexed_store, idle\<lparr>last_indexed := Some UtcNow\<rparr>)"
  by (simp add: parser_defs store_defs example_defs indexed_store_def indexed_tables_def
      Let_def)

section \<open>Properties of the project-path encoding\<close>

lemma replace_slash_dash_inverse:
  "CHR ''-'' \<notin> set s \<Longrightarrow>
     replace_char CHR ''-'' ''/'' (replace_char CHR ''/'' ''-'' s) = s"
  by (induction s) (auto simp: replace_char_def)

lemma replace_dash_leaves_none: "CHR ''-'' \<notin> set (replace_char CHR ''-'' ''/'' s)"
  by (induction s) (auto simp: replace_char_def)

lemma decode_project_path_dash_free: "CHR ''-'' \<notin> set (decode_project_path x)"
  using replace_dash_leaves_none by (auto simp: decode_project_path_def Let_def)

text \<open>
  C10, as stated, at the path \<open>//a\<close>: it starts with a slash and has no dash, yet
  encoding gives \<open>--a\<close>, and decoding that drops one dash and finds the result
  already starting with a slash, so it returns \<open>/a\<close>.
\<close>

theorem path_round_trip_double_slash_counterexample:
  "startswith ''//a'' ''/'' \<and> CHR ''-'' \<notin> set ''//a''
     \<and> decode_project_path (encode_project_path ''//a'') \<noteq> ''//a''"
  by (simp add: decode_project_path_def encode_project_path_def startswith_def
      replace_char_def)

text \<open>
  C10 (amended): for every string \<open>p\<close> that starts with one slash but not with two and
  contains no dash, decoding the encoding of \<open>p\<close> gives \<open>p\<close> back; and for every
  \<open>p\<close> that contains a dash the round trip does not give \<open>p\<close> back, because the
  decoded string never contains a dash.
\<close>

theorem path_round_trip:
  "(startswith p ''/'' \<and> \<not> startswith p ''//'' \<and> CHR ''-'' \<notin> set p
      \<longrightarrow> decode_project_path (encode_project_path p) = p)
   \<and> (CHR ''-'' \<in> set p \<longrightarrow> decode_project_path (encode_project_path p) \<noteq> p)"
proof (intro conjI impI)
  assume h: "startswith p ''/'' \<and> \<not> startswith p ''//'' \<and> CHR ''-'' \<notin> set p"
  then obtain q where p: "p = CHR ''/'' # q"
    by (cases p) (auto simp: startswith_def)
  from h p have q: "CHR ''-'' \<notin> set q" "\<not> startswith q ''/''"
    by (auto simp: startswith_def)
  then show "decode_project_path (encode_project_path p) = p"
    by (simp add: decode_project_path_def encode_project_path_def p startswith_def
        replace_slash_dash_inverse)
next
  assume d: "CHR ''-'' \<in> set p"
  with decode_project_path_dash_free [of "encode_project_path p"]
  show "decode_project_path (encode_project_path p) \<noteq> p" by metis
qed

theorem path_round_trip_witness:
  "startswith ''/Users/dev/app'' ''/'' \<and> \<not> startswith ''/Users/dev/app'' ''//''
     \<and> CHR ''-'' \<notin> set ''/Users/dev/app''
     \<and> decode_project_path (encode_project_path ''/Users/dev/app'') = ''/Users/dev/app''
     \<and> CHR ''-'' \<in> set ''/my-app''
     \<and> decode_project_path (encode_project_path ''/my-app'') \<noteq> ''/my-app''"
  using path_round_trip [of "''/Users/dev/app''"] path_round_trip [of "''/my-app''"]
  by (simp add: startswith_def)

section \<open>Sequence numbers\<close>

lemma seq_inv_length: "seq_inv st \<Longrightarrow> length (ps_messages st) = ps_sequence st"
  unfolding seq_inv_def by (metis length_map length_upt minus_nat.diff_0)

lemma claude_user_seq:
  "claude_user L entry ts st = Inr st' \<Longrightarrow> seq_inv st \<Longrightarrow> seq_inv st'"
  by (auto simp: claude_user_def seq_inv_def Let_def split: sum.splits)

lemma claude_assistant_seq:
  "claude_assistant L entry ts st = Inr st' \<Longrightarrow> seq_inv st \<Longrightarrow> seq_inv st'"
  by (auto simp: claude_assistant_def seq_inv_def Let_def split: sum.splits)

lemma claude_entry_seq:
  "claude_entry L st e = Inr st' \<Longrightarrow> seq_inv st \<Longrightarrow> seq_inv st'"
proof (cases e)
  case (JObj entry)
  assume a: "claude_entry L st e = Inr st'" and i: "seq_inv st"
  let ?st1 = "st\<lparr>ps_meta := claude_update_meta entry (parse_timestamp L (dict_get entry ''timestamp'' JNull)) (ps_meta st)\<rparr>"
  have i1: "seq_inv ?st1" using i by (simp add: seq_inv_def)
  from a JObj show ?thesis
    using claude_user_seq [OF _ i1] claude_assistant_seq [OF _ i1] i1
    by (auto simp: claude_entry_def Let_def split: if_splits)
qed (simp_all add: claude_entry_def)

lemma codex_append_seq: "seq_inv st \<Longrightarrow> m_sequence m = ps_sequence st \<Longrightarrow> seq_inv (codex_append m st)"
  by (simp add: codex_append_def seq_inv_def)

lemma codex_message_sequence [simp]: "m_sequence (codex_message L t p ts n) = n"
  by (simp add: codex_message_def Let_def)

lemma codex_response_item_seq:
  "codex_response_item L payload ts st = Inr st' \<Longrightarrow> seq_inv st \<Longrightarrow> seq_inv st'"
proof (cases payload)
  case (JObj p)
  assume a: "codex_response_item L payload ts st = Inr st'" and i: "seq_inv st"
  have i1: "seq_inv (st\<lparr>ps_first_user_message := x\<rparr>)" for x
    using i by (simp add: seq_inv_def)
  from a JObj show ?thesis
    using i codex_append_seq [OF i] codex_append_seq [OF i1]
    by (auto simp: codex_response_item_def Let_def split: if_splits sum.splits)
qed (simp_all add: codex_response_item_def)

lemma codex_session_meta_seq:
  "codex_session_meta L fp payload ts st = Inr st' \<Longrightarrow> seq_inv st \<Longrightarrow> seq_inv st'"
  by (cases payload) (auto simp: codex_session_meta_def seq_inv_def Let_def)

lemma codex_entry_seq:
  "codex_entry L fp st e = Inr st' \<Longrightarrow> seq_inv st \<Longrightarrow> seq_inv st'"
proof (cases e)
  case (JObj entry)
  assume a: "codex_entry L fp st e = Inr st'" and i: "seq_inv st"
  have m: "seq_inv s \<Longrightarrow> seq_inv (s\<lparr>ps_meta := x\<rparr>)" for s x
    by (simp add: seq_inv_def)
  from a JObj show ?thesis
    using codex_response_item_seq [OF _ i] codex_session_meta_seq [OF _ i] i m
    by (auto simp: codex_entry_def Let_def split: if_splits sum.splits)
qed (simp_all add: codex_entry_def)

lemma run_entries_seq:
  assumes step: "\<And>s e s'. step s e = Inr s' \<Longrightarrow> seq_inv s \<Longrightarrow> seq_inv s'"
  shows "run_entries step st es = Inr st' \<Longrightarrow> seq_inv st \<Longrightarrow> seq_inv st'"
proof (induction es arbitrary: st)
  case Nil then show ?case by simp
next
  case (Cons e es)
  then show ?case using step by (auto split: sum.splits)
qed

lemma parse_claude_sequence:
  assumes "parse_claude_session L F file_path = Inr (Some (session, msgs))"
  shows "map m_sequence msgs = [0..<length msgs]"
proof -
  from assms obtain st where
    r: "run_entries (claude_entry L) (claude_init L file_path) (fst (read_jsonl F file_path)) = Inr st"
    and m: "msgs = ps_messages st"
    by (auto simp: parse_claude_session_def parse_claude_stream_def
        split: sum.splits option.splits if_splits)
  have "seq_inv (claude_init L file_path)" by (simp add: seq_inv_def claude_init_def)
  with r have "seq_inv st" using run_entries_seq [of "claude_entry L"] claude_entry_seq by blast
  then show ?thesis using m seq_inv_length [of st] by (simp add: seq_inv_def)
qed

lemma parse_codex_sequence:
  assumes "parse_codex_session L F file_path = Inr (Some (session, msgs))"
  shows "map m_sequence msgs = [0..<length msgs]"
proof -
  from assms obtain st where
    r: "run_entries (codex_entry L file_path) (codex_init file_path) (fst (read_jsonl F file_path)) = Inr st"
    and m: "msgs = ps_messages st"
    by (auto simp: parse_codex_session_def parse_codex_stream_def
        split: sum.splits option.splits if_splits)
  have "seq_inv (codex_init file_path)" by (simp add: seq_inv_def codex_init_def)
  with r have "seq_inv st"
    using run_entries_seq [of "codex_entry L file_path"] codex_entry_seq by blast
  then show ?thesis using m seq_inv_length [of st] by (simp add: seq_inv_def)
qed

text \<open>
  C3: for every file either parser turns into a session, the sequence numbers of the
  messages, read off in list order (the order in which the records were read), are
  \<open>0, 1, ..., N - 1\<close>: one counter serves every message-producing record kind. The
  subagent loader parses with \<open>parse_claude_session\<close> too, so the same holds for a
  subagent transcript.
\<close>

theorem sequence_numbers_contiguous:
  "(parse_claude_session L F file_path = Inr (Some (session, msgs))
      \<longrightarrow> map m_sequence msgs = [0..<length msgs])
   \<and> (parse_codex_session L F file_path = Inr (Some (session, msgs))
      \<longrightarrow> map m_sequence msgs = [0..<length msgs])"
  using parse_claude_sequence parse_codex_sequence by blast

theorem sequence_numbers_contiguous_witness:
  "(\<exists>session msgs.
      parse_claude_session example_lib example_fs ''/claude/projects/-work-app/s1.jsonl''
        = Inr (Some (session, msgs))
      \<and> map m_sequence msgs = [0, 1, 2])
   \<and> (\<exists>session msgs.
      parse_codex_session example_lib example_fs ''/codex/sessions/2025/01/02/rollout-1.jsonl''
        = Inr (Some (session, msgs))
      \<and> map m_sequence msgs = [0])"
proof -
  from example_parse_s1 obtain s1 m1 where
    p1: "parse_claude_session example_lib example_fs ''/claude/projects/-work-app/s1.jsonl''
           = Inr (Some (s1, m1))" and l1: "length m1 = 3"
    by blast
  from example_parse_rollout_1 obtain s2 m2 where
    p2: "parse_codex_session example_lib example_fs
           ''/codex/sessions/2025/01/02/rollout-1.jsonl'' = Inr (Some (s2, m2))"
    and l2: "length m2 = 1"
    by blast
  from sequence_numbers_contiguous
         [of example_lib example_fs "''/claude/projects/-work-app/s1.jsonl''" s1 m1] p1 l1
  have "map m_sequence m1 = [0, 1, 2]" by (simp add: upt_rec)
  moreover
  from sequence_numbers_contiguous
         [of example_lib example_fs "''/codex/sessions/2025/01/02/rollout-1.jsonl''" s2 m2]
       p2 l2
  have "map m_sequence m2 = [0]" by simp
  ultimately show ?thesis using p1 p2 by simp
qed

section \<open>Records that are neither user nor assistant messages\<close>

lemma besides_update_meta [simp]:
  "besides_clock_and_cwd (claude_update_meta entry ts sm) = besides_clock_and_cwd sm"
  by (simp add: claude_update_meta_def besides_clock_and_cwd_def Let_def)

lemma besides_model:
  "besides_clock_and_cwd a = besides_clock_and_cwd b \<Longrightarrow> sm_model a = sm_model b"
  by (metis besides_clock_and_cwd_def session_meta.select_convs(4) session_meta.surjective
      session_meta.update_convs(3,5,6))

lemma besides_set_model:
  "besides_clock_and_cwd a = besides_clock_and_cwd b \<Longrightarrow>
     besides_clock_and_cwd (a\<lparr>sm_model := m\<rparr>) = besides_clock_and_cwd (b\<lparr>sm_model := m\<rparr>)"
  by (cases a, cases b) (simp add: besides_clock_and_cwd_def)

lemma claude_user_same:
  "same_conversation s t \<Longrightarrow>
     rel_sum (=) same_conversation (claude_user L entry ts s) (claude_user L entry ts t)"
  by (simp add: claude_user_def Let_def same_conversation_def split: sum.split)

lemma claude_assistant_same:
  "same_conversation s t \<Longrightarrow>
     rel_sum (=) same_conversation (claude_assistant L entry ts s) (claude_assistant L entry ts t)"
proof -
  assume c: "same_conversation s t"
  then have m: "sm_model (ps_meta s) = sm_model (ps_meta t)"
    using besides_model [of "ps_meta s" "ps_meta t"] by (simp add: same_conversation_def)
  from c have b: "besides_clock_and_cwd ((ps_meta s)\<lparr>sm_model := x\<rparr>)
      = besides_clock_and_cwd ((ps_meta t)\<lparr>sm_model := x\<rparr>)" for x
    by (intro besides_set_model) (simp add: same_conversation_def)
  from c show ?thesis
    unfolding claude_assistant_def Let_def m
    by (simp add: same_conversation_def b split: sum.split)
qed

lemma claude_entry_same:
  assumes "same_conversation s t"
  shows "rel_sum (=) same_conversation (claude_entry L s e) (claude_entry L t e)"
proof (cases e)
  case (JObj entry)
  let ?ts = "parse_timestamp L (dict_get entry ''timestamp'' JNull)"
  have "same_conversation (s\<lparr>ps_meta := claude_update_meta entry ?ts (ps_meta s)\<rparr>)
          (t\<lparr>ps_meta := claude_update_meta entry ?ts (ps_meta t)\<rparr>)"
    using assms by (simp add: same_conversation_def)
  then show ?thesis
    using JObj claude_user_same claude_assistant_same
    by (simp add: claude_entry_def Let_def)
qed (simp_all add: claude_entry_def)

lemma run_entries_same:
  "same_conversation s t \<Longrightarrow>
     rel_sum (=) same_conversation (run_entries (claude_entry L) s es)
       (run_entries (claude_entry L) t es)"
proof (induction es arbitrary: s t)
  case Nil then show ?case by simp
next
  case (Cons e es)
  from claude_entry_same [OF Cons.prems, of L e] show ?case
    by (cases "claude_entry L s e"; cases "claude_entry L t e") (auto intro: Cons.IH)
qed

lemma other_record_step:
  assumes "dict_get r ''type'' JNull \<noteq> JStr ''user''" "dict_get r ''type'' JNull \<noteq> JStr ''assistant''"
  shows "\<exists>st'. claude_entry L st (JObj r) = Inr st' \<and> same_conversation st' st"
  using assms by (simp add: claude_entry_def Let_def same_conversation_def)

lemma other_record_step_id:
  assumes "dict_get r ''type'' JNull \<noteq> JStr ''user''" "dict_get r ''type'' JNull \<noteq> JStr ''assistant''"
    "parse_timestamp L (dict_get r ''timestamp'' JNull) = None" "\<not> has_key r ''cwd''"
  shows "claude_entry L st (JObj r) = Inr st"
  using assms by (simp add: claude_entry_def Let_def claude_update_meta_def)

lemma stream_same:
  assumes "rel_sum (=) same_conversation (run_entries (claude_entry L) (claude_init L p) es)
             (run_entries (claude_entry L) (claude_init L p) es')"
  shows "map_sum id (map_option conversation) (parse_claude_stream L p (es, e))
       = map_sum id (map_option conversation) (parse_claude_stream L p (es', e))"
proof (cases "run_entries (claude_entry L) (claude_init L p) es";
       cases "run_entries (claude_entry L) (claude_init L p) es'")
  fix s t
  assume ab: "run_entries (claude_entry L) (claude_init L p) es = Inr s"
    "run_entries (claude_entry L) (claude_init L p) es' = Inr t"
  with assms have st: "same_conversation s t" by simp
  then have "besides_clock_and_cwd (finish_meta s) = besides_clock_and_cwd (finish_meta t)"
    by (cases "ps_meta s", cases "ps_meta t")
       (simp add: finish_meta_def same_conversation_def besides_clock_and_cwd_def)
  with st ab show ?thesis
    by (auto simp: parse_claude_stream_def conversation_def same_conversation_def
        split: option.splits)
qed (use assms in \<open>auto simp: parse_claude_stream_def\<close>)

lemma stream_cong:
  "run_entries (claude_entry L) (claude_init L p) es
     = run_entries (claude_entry L) (claude_init L p) es'
   \<Longrightarrow> parse_claude_stream L p (es, e) = parse_claude_stream L p (es', e)"
  unfolding parse_claude_stream_def fst_conv snd_conv by simp

text \<open>
  C5, as stated, at a file of two records, a progress marker carrying a working directory
  and a user message: with the marker the session's working directory is the marker's,
  without it the user record's.
\<close>

theorem other_records_feed_metadata_counterexample:
  "dict_get [(''type'', JStr ''progress''), (''cwd'', JStr ''/tmp/hook'')] ''type'' JNull
     \<noteq> JStr ''user''
   \<and> dict_get [(''type'', JStr ''progress''), (''cwd'', JStr ''/tmp/hook'')] ''type'' JNull
     \<noteq> JStr ''assistant''
   \<and> map_sum id (map_option (\<lambda>parsed. sm_cwd (fst parsed)))
         (parse_claude_stream example_lib ''/claude/projects/-work-app/s9.jsonl''
            ([JObj [(''type'', JStr ''progress''), (''cwd'', JStr ''/tmp/hook'')],
              user_record (JStr ''Fix the bug'')], None))
       = Inr (Some (JStr ''/tmp/hook''))
   \<and> map_sum id (map_option (\<lambda>parsed. sm_cwd (fst parsed)))
         (parse_claude_stream example_lib ''/claude/projects/-work-app/s9.jsonl''
            ([user_record (JStr ''Fix the bug'')], None))
       = Inr (Some (JStr ''/work/app''))"
  by (simp add: parser_defs example_defs Let_def)

text \<open>
  C5 (amended): take a Format A file and one of its records whose type is neither
  \<open>user\<close> nor \<open>assistant\<close>. With and without that record the parser fails with the
  same exception, or returns \<open>None\<close> both times, or returns sessions that agree on
  the message sequence and on every session field other than \<open>created_at\<close>,
  \<open>updated_at\<close> and \<open>cwd\<close>. If the record has no usable timestamp and no \<open>cwd\<close>
  key, the two outputs are equal.
\<close>

theorem other_records_leave_conversation:
  assumes "dict_get r ''type'' JNull \<noteq> JStr ''user''"
    and "dict_get r ''type'' JNull \<noteq> JStr ''assistant''"
    and "file_lines F file_path = (before @ Decoded (JObj r) # after, err)"
    and "file_lines F' file_path = (before @ after, err)"
  shows "map_sum id (map_option conversation) (parse_claude_session L F file_path)
           = map_sum id (map_option conversation) (parse_claude_session L F' file_path)
         \<and> (parse_timestamp L (dict_get r ''timestamp'' JNull) = None \<and> \<not> has_key r ''cwd''
              \<longrightarrow> parse_claude_session L F file_path = parse_claude_session L F' file_path)"
proof (intro conjI impI)
  let ?run = "run_entries (claude_entry L)"
  let ?init = "claude_init L file_path"
  have split: "?run ?init (yielded before @ JObj r # yielded after)
     = (case ?run ?init (yielded before) of Inl e \<Rightarrow> Inl e
        | Inr st \<Rightarrow> (case claude_entry L st (JObj r) of Inl e \<Rightarrow> Inl e | Inr st' \<Rightarrow> ?run st' (yielded after)))"
    by (simp add: run_entries_append split: sum.splits)
  have split': "?run ?init (yielded before @ yielded after)
     = (case ?run ?init (yielded before) of Inl e \<Rightarrow> Inl e | Inr st \<Rightarrow> ?run st (yielded after))"
    by (simp add: run_entries_append)
  have "rel_sum (=) same_conversation (?run ?init (yielded before @ JObj r # yielded after))
          (?run ?init (yielded before @ yielded after))"
  proof (cases "?run ?init (yielded before)")
    case (Inl e) then show ?thesis by (simp add: split split')
  next
    case (Inr st)
    from other_record_step [OF assms(1,2), of L st] obtain st'
      where s: "claude_entry L st (JObj r) = Inr st'" and c: "same_conversation st' st" by blast
    from run_entries_same [OF c] Inr s show ?thesis by (simp add: split split')
  qed
  from stream_same [OF this, of err]
  show "map_sum id (map_option conversation) (parse_claude_session L F file_path)
           = map_sum id (map_option conversation) (parse_claude_session L F' file_path)"
    using assms(3,4)
    by (simp add: parse_claude_session_def read_jsonl_def yielded_append)
next
  assume h: "parse_timestamp L (dict_get r ''timestamp'' JNull) = None \<and> \<not> has_key r ''cwd''"
  have "run_entries (claude_entry L) (claude_init L file_path) (yielded before @ JObj r # yielded after)
      = run_entries (claude_entry L) (claude_init L file_path) (yielded before @ yielded after)"
  proof (cases "run_entries (claude_entry L) (claude_init L file_path) (yielded before)")
    case (Inl e) then show ?thesis by (simp add: run_entries_append)
  next
    case (Inr st)
    from h have "claude_entry L st (JObj r) = Inr st"
      by (intro other_record_step_id [OF assms(1,2)]) simp_all
    with Inr show ?thesis by (simp add: run_entries_append)
  qed
  from stream_cong [OF this, of err]
  show "parse_claude_session L F file_path = parse_claude_session L F' file_path"
    using assms(3,4)
    by (simp add: parse_claude_session_def read_jsonl_def yielded_append)
qed

theorem other_records_leave_conversation_witness:
  "dict_get [(''type'', JStr ''file-history-snapshot'')] ''type'' JNull \<noteq> JStr ''user''
   \<and> dict_get [(''type'', JStr ''file-history-snapshot'')] ''type'' JNull \<noteq> JStr ''assistant''
   \<and> parse_timestamp example_lib
         (dict_get [(''type'', JStr ''file-history-snapshot'')] ''timestamp'' JNull) = None
   \<and> \<not> has_key [(''type'', JStr ''file-history-snapshot'')] ''cwd''
   \<and> parse_claude_session example_lib
         (example_fs\<lparr>file_lines := (\<lambda>p.
            ([Decoded (user_record (JStr ''Fix the bug''))]
               @ Decoded (JObj [(''type'', JStr ''file-history-snapshot'')])
               # [Decoded assistant_record], None))\<rparr>)
         ''/claude/projects/-work-app/s9.jsonl''
     = parse_claude_session example_lib
         (example_fs\<lparr>file_lines := (\<lambda>p.
            ([Decoded (user_record (JStr ''Fix the bug''))] @ [Decoded assistant_record],
             None))\<rparr>)
         ''/claude/projects/-work-app/s9.jsonl''"
proof -
  have t: "dict_get [(''type'', JStr ''file-history-snapshot'')] ''type'' JNull \<noteq> JStr ''user''"
    "dict_get [(''type'', JStr ''file-history-snapshot'')] ''type'' JNull \<noteq> JStr ''assistant''"
    by (simp_all add: dict_get_def)
  have n: "parse_timestamp example_lib
         (dict_get [(''type'', JStr ''file-history-snapshot'')] ''timestamp'' JNull) = None"
    "\<not> has_key [(''type'', JStr ''file-history-snapshot'')] ''cwd''"
    by (simp_all add: dict_get_def parse_timestamp_def has_key_def)
  from other_records_leave_conversation [OF t, of
      "example_fs\<lparr>file_lines := (\<lambda>p.
            ([Decoded (user_record (JStr ''Fix the bug''))]
               @ Decoded (JObj [(''type'', JStr ''file-history-snapshot'')])
               # [Decoded assistant_record], None))\<rparr>"
      "''/claude/projects/-work-app/s9.jsonl''"
      "[Decoded (user_record (JStr ''Fix the bug''))]" "[Decoded assistant_record]" None
      "example_fs\<lparr>file_lines := (\<lambda>p.
            ([Decoded (user_record (JStr ''Fix the bug''))] @ [Decoded assistant_record],
             None))\<rparr>" example_lib]
  show ?thesis using t n by simp
qed

section \<open>The display text\<close>

lemma take_nonempty: "xs \<noteq> [] \<Longrightarrow> take 200 xs \<noteq> []"
  by (cases xs) simp_all

lemma display_rule_Nil [simp]: "display_rule ok [] = ''No user message''"
  by (simp add: display_rule_def)

lemma display_rule_Cons:
  "display_rule ok (t # ts) =
     (case t of Inr text \<Rightarrow> if ok text then take 200 (strip_xml_tags text) else display_rule ok ts
      | Inl err \<Rightarrow> display_rule ok ts)"
  by (simp add: display_rule_def split: sum.splits)

lemma claude_entry_first:
  assumes "claude_entry L st e = Inr st'"
  shows "(\<not> unset (ps_first_user_message st) \<longrightarrow> ps_first_user_message st' = ps_first_user_message st)
    \<and> (unset (ps_first_user_message st) \<longrightarrow>
         (case claude_user_text L e of
            Some (Inr text) \<Rightarrow> if qualifies text
               then ps_first_user_message st' = Some (take 200 (strip_xml_tags text))
               else ps_first_user_message st' = ps_first_user_message st
          | Some (Inl err) \<Rightarrow> False
          | None \<Rightarrow> ps_first_user_message st' = ps_first_user_message st))"
proof (cases e)
  case (JObj entry)
  show ?thesis
  proof (cases "dict_get entry ''type'' JNull = JStr ''user''")
    case True
    with assms JObj show ?thesis
      by (auto simp: claude_entry_def claude_user_def claude_user_text_def Let_def
          claude_first_user_message_def qualifies_def split: sum.splits if_splits)
  next
    case False
    with assms JObj show ?thesis
      by (auto simp: claude_entry_def claude_assistant_def claude_user_text_def Let_def
          split: sum.splits if_splits)
  qed
qed (use assms in \<open>simp_all add: claude_entry_def\<close>)

lemma run_display:
  assumes step: "\<And>s e s'. step s e = Inr s' \<Longrightarrow>
      (\<not> unset (ps_first_user_message s) \<longrightarrow> ps_first_user_message s' = ps_first_user_message s)
    \<and> (unset (ps_first_user_message s) \<longrightarrow>
         (case user_text e of
            Some (Inr body) \<Rightarrow> if ok body
               then ps_first_user_message s' = Some (take 200 (strip_xml_tags body))
               else ps_first_user_message s' = ps_first_user_message s
          | Some (Inl err) \<Rightarrow> False
          | None \<Rightarrow> ps_first_user_message s' = ps_first_user_message s))"
    and ok: "\<And>body. ok body \<Longrightarrow> strip_xml_tags body \<noteq> []"
  shows "run_entries step st es = Inr st' \<Longrightarrow>
     display_of (ps_first_user_message st') =
       (if unset (ps_first_user_message st)
        then display_rule ok (List.map_filter user_text es)
        else display_of (ps_first_user_message st))"
proof (induction es arbitrary: st)
  case Nil
  then show ?case
    by (auto simp: List.map_filter_simps unset_def display_of_def split: option.splits)
next
  case (Cons e es)
  from Cons.prems obtain st1 where s1: "step st e = Inr st1"
    and r: "run_entries step st1 es = Inr st'"
    by (auto split: sum.splits)
  note first = step [OF s1]
  note ih = Cons.IH [OF r]
  show ?case
  proof (cases "unset (ps_first_user_message st)")
    case False
    with first ih show ?thesis by simp
  next
    case True
    show ?thesis
    proof (cases "user_text e")
      case None
      with first ih True show ?thesis by (simp add: List.map_filter_simps)
    next
      case (Some t)
      show ?thesis
      proof (cases t)
        case (Inl err)
        with first True Some show ?thesis by simp
      next
        case (Inr body)
        show ?thesis
        proof (cases "ok body")
          case q: True
          then have "take 200 (strip_xml_tags body) \<noteq> []"
            using ok by (simp add: take_nonempty)
          with first ih True Some Inr q show ?thesis
            by (simp add: List.map_filter_simps display_rule_Cons unset_def display_of_def)
        next
          case q: False
          with first ih True Some Inr show ?thesis
            by (simp add: List.map_filter_simps display_rule_Cons)
        qed
      qed
    qed
  qed
qed

lemma codex_entry_first:
  assumes "codex_entry L fp st e = Inr st'"
  shows "(\<not> unset (ps_first_user_message st) \<longrightarrow> ps_first_user_message st' = ps_first_user_message st)
    \<and> (unset (ps_first_user_message st) \<longrightarrow>
         (case codex_user_text e of
            Some (Inr text) \<Rightarrow> if qualifies_without_plan_test text
               then ps_first_user_message st' = Some (take 200 (strip_xml_tags text))
               else ps_first_user_message st' = ps_first_user_message st
          | Some (Inl err) \<Rightarrow> False
          | None \<Rightarrow> ps_first_user_message st' = ps_first_user_message st))"
proof (cases e)
  case (JObj entry)
  let ?payload = "dict_get entry ''payload'' (JObj [])"
  let ?ts = "parse_timestamp L (dict_get entry ''timestamp'' JNull)"
  consider (meta) "dict_get entry ''type'' JNull = JStr ''session_meta''"
    | (item) "dict_get entry ''type'' JNull = JStr ''response_item''"
    | (other) "dict_get entry ''type'' JNull \<noteq> JStr ''session_meta''"
        "dict_get entry ''type'' JNull \<noteq> JStr ''response_item''"
    by blast
  then show ?thesis
  proof cases
    case meta
    with assms JObj show ?thesis
      by (cases ?payload)
         (auto simp: codex_entry_def codex_session_meta_def codex_user_text_def Let_def
           split: if_splits)
  next
    case other
    with assms JObj show ?thesis
      by (auto simp: codex_entry_def codex_user_text_def Let_def split: if_splits)
  next
    case item
    from assms JObj item obtain st1 where
      ri: "codex_response_item L ?payload ?ts st = Inr st1"
      and f: "ps_first_user_message st' = ps_first_user_message st1"
      by (auto simp: codex_entry_def Let_def split: sum.splits if_splits)
    from ri obtain p where p: "?payload = JObj p"
      by (cases ?payload) (simp_all add: codex_response_item_def)
    from ri p show ?thesis
      unfolding f
      by (auto simp: codex_response_item_def codex_user_text_def JObj item Let_def
          codex_append_def codex_first_user_message_def qualifies_without_plan_test_def
          split: sum.splits if_splits)
  qed
qed (use assms in \<open>simp_all add: codex_entry_def\<close>)

text \<open>
  C6, as stated, at a Format B file whose only user message opens with the plan-injection
  preamble: the claim's rule, with its plan test, yields the sentinel, while the Codex
  parser takes the message as display text.
\<close>

theorem display_text_codex_plan_counterexample:
  "\<exists>session msgs.
     parse_codex_session example_lib example_fs ''/codex/sessions/2025/01/02/rollout-1.jsonl''
       = Inr (Some (session, msgs))
     \<and> sm_display session = ''Implement the following plan: ship it''
     \<and> display_rule qualifies
           (List.map_filter codex_user_text
              (fst (read_jsonl example_fs ''/codex/sessions/2025/01/02/rollout-1.jsonl'')))
         = ''No user message''"
  by (simp add: parser_defs example_defs Let_def display_rule_def qualifies_def
      codex_user_text_def List.map_filter_simps)

text \<open>
  C6 (amended): for every file that parses to a session, the display text is the first
  qualifying user message, cleaned of markup tags and cut to 200 characters, and the
  sentinel \<open>No user message\<close> if none qualifies. For Format A a message qualifies if
  its cleaned text is non-empty and does not open with the plan-injection preamble and
  its text does not open with a system prefix. For Format B a message qualifies if its
  text is non-empty, also once cleaned, and does not open with a system prefix: the
  Codex parser has no plan-injection test.
\<close>

theorem display_text_rule:
  "(parse_claude_session L F file_path = Inr (Some (session, msgs)) \<longrightarrow>
      sm_display session
        = display_rule qualifies
            (List.map_filter (claude_user_text L) (fst (read_jsonl F file_path))))
   \<and> (parse_codex_session L F file_path = Inr (Some (session, msgs)) \<longrightarrow>
      sm_display session
        = display_rule qualifies_without_plan_test
            (List.map_filter codex_user_text (fst (read_jsonl F file_path))))"
proof (intro conjI impI)
  assume "parse_claude_session L F file_path = Inr (Some (session, msgs))"
  then obtain st where
    r: "run_entries (claude_entry L) (claude_init L file_path) (fst (read_jsonl F file_path)) = Inr st"
    and m: "session = finish_meta st"
    by (auto simp: parse_claude_session_def parse_claude_stream_def
        split: sum.splits option.splits if_splits)
  from run_display [where step = "claude_entry L" and user_text = "claude_user_text L"
      and ok = qualifies, OF claude_entry_first _ r]
  have "display_of (ps_first_user_message st)
          = display_rule qualifies
              (List.map_filter (claude_user_text L) (fst (read_jsonl F file_path)))"
    by (simp add: qualifies_def claude_init_def unset_def)
  with m show "sm_display session
        = display_rule qualifies
            (List.map_filter (claude_user_text L) (fst (read_jsonl F file_path)))"
    by (simp add: finish_meta_def)
next
  assume "parse_codex_session L F file_path = Inr (Some (session, msgs))"
  then obtain st where
    r: "run_entries (codex_entry L file_path) (codex_init file_path) (fst (read_jsonl F file_path)) = Inr st"
    and m: "session = codex_finish_meta L file_path st"
    by (auto simp: parse_codex_session_def parse_codex_stream_def
        split: sum.splits option.splits if_splits)
  from run_display [where step = "codex_entry L file_path" and user_text = codex_user_text
      and ok = qualifies_without_plan_test, OF codex_entry_first _ r]
  have "display_of (ps_first_user_message st)
          = display_rule qualifies_without_plan_test
              (List.map_filter codex_user_text (fst (read_jsonl F file_path)))"
    by (simp add: qualifies_without_plan_test_def codex_init_def unset_def)
  with m show "sm_display session
        = display_rule qualifies_without_plan_test
            (List.map_filter codex_user_text (fst (read_jsonl F file_path)))"
    by (simp add: codex_finish_meta_def finish_meta_def Let_def)
qed

theorem display_text_rule_witness:
  "(\<exists>session msgs.
      parse_claude_session example_lib example_fs ''/claude/projects/-work-app/s1.jsonl''
        = Inr (Some (session, msgs))
      \<and> sm_display session = ''Fix the bug''
      \<and> sm_display session
          = display_rule qualifies
              (List.map_filter (claude_user_text example_lib)
                 (fst (read_jsonl example_fs ''/claude/projects/-work-app/s1.jsonl''))))
   \<and> (\<exists>session msgs.
      parse_codex_session example_lib example_fs ''/codex/sessions/2025/01/02/rollout-1.jsonl''
        = Inr (Some (session, msgs))
      \<and> sm_display session
          = display_rule qualifies_without_plan_test
              (List.map_filter codex_user_text
                 (fst (read_jsonl example_fs
                         ''/codex/sessions/2025/01/02/rollout-1.jsonl''))))"
proof -
  from example_parse_s1 obtain s1 m1 where
    p1: "parse_claude_session example_lib example_fs ''/claude/projects/-work-app/s1.jsonl''
           = Inr (Some (s1, m1))" and d1: "sm_display s1 = ''Fix the bug''"
    by blast
  from example_parse_rollout_1 obtain s2 m2 where
    p2: "parse_codex_session example_lib example_fs
           ''/codex/sessions/2025/01/02/rollout-1.jsonl'' = Inr (Some (s2, m2))"
    by blast
  from display_text_rule
         [of example_lib example_fs "''/claude/projects/-work-app/s1.jsonl''" s1 m1] p1
  have "sm_display s1
          = display_rule qualifies
              (List.map_filter (claude_user_text example_lib)
                 (fst (read_jsonl example_fs ''/claude/projects/-work-app/s1.jsonl'')))"
    by simp
  moreover
  from display_text_rule
         [of example_lib example_fs "''/codex/sessions/2025/01/02/rollout-1.jsonl''" s2 m2] p2
  have "sm_display s2
          = display_rule qualifies_without_plan_test
              (List.map_filter codex_user_text
                 (fst (read_jsonl example_fs
                         ''/codex/sessions/2025/01/02/rollout-1.jsonl'')))"
    by simp
  ultimately show ?thesis using p1 p2 d1 by simp
qed

section \<open>The unit of work\<close>

lemma db_add_fields [simp]:
  "pending_ops (db_add p d) = pending_ops d @ [p]"
  "committed (db_add p d) = committed d"
  "driver_accepts (db_add p d) = driver_accepts d"
  by (simp_all add: db_add_def)

lemma add_messages_eq:
  "add_messages row ms d = d\<lparr>pending_ops := pending_ops d @ map (\<lambda>m. AddMessage (row m)) ms\<rparr>"
  unfolding add_messages_def
  by (induction ms arbitrary: d) (simp_all add: db_add_def)

lemma add_subagents_eq:
  "foldl (add_subagent L sid) d files
     = d\<lparr>pending_ops := subagent_ops L sid files (pending_ops d)\<rparr>"
  unfolding subagent_ops_def
  by (induction files arbitrary: d) (simp_all add: add_subagent_def db_add_def Let_def)

lemma add_associated_file_eq:
  "add_associated_file F sid d e = d\<lparr>pending_ops := pending_ops d @ associated_ops F sid [e]\<rparr>"
  by (cases e) (simp add: add_associated_file_def associated_ops_def db_add_def split: sum.splits)

lemma associated_ops_Cons:
  "associated_ops F sid (e # es) = associated_ops F sid [e] @ associated_ops F sid es"
  by (simp add: associated_ops_def)

lemma add_associated_eq:
  "foldl (add_associated_file F sid) d entries
     = d\<lparr>pending_ops := pending_ops d @ associated_ops F sid entries\<rparr>"
proof (induction entries arbitrary: d)
  case Nil then show ?case by (simp add: associated_ops_def)
next
  case (Cons e es)
  have "foldl (add_associated_file F sid) d (e # es)
          = foldl (add_associated_file F sid) (add_associated_file F sid d e) es"
    by simp
  also have "\<dots> = (add_associated_file F sid d e)
      \<lparr>pending_ops := pending_ops (add_associated_file F sid d e) @ associated_ops F sid es\<rparr>"
    by (rule Cons.IH)
  also have "\<dots> = d\<lparr>pending_ops := pending_ops d @ associated_ops F sid (e # es)\<rparr>"
    by (simp add: add_associated_file_eq associated_ops_Cons [of F sid e es])
  finally show ?case .
qed

lemma unit_ok_single: "unit_ok (s_id s) (s_file_path s) [AddSession s]"
  by (simp add: unit_ok_def)

lemma unit_ok_append:
  "unit_ok sid p ops \<Longrightarrow> list_all (child_of sid) cs \<Longrightarrow> unit_ok sid p (ops @ cs)"
  by (auto simp: unit_ok_def)

lemma bump_child: "child_of sid c \<Longrightarrow> bump_subagent_count sid c = c"
  by (cases c) (simp_all add: child_of_def bump_subagent_count_def)

lemma unit_ok_bump:
  "unit_ok sid p ops \<Longrightarrow> unit_ok sid p (map (bump_subagent_count sid) ops)"
proof -
  assume "unit_ok sid p ops"
  then obtain s children where o: "ops = AddSession s # children" "s_id s = sid"
    "s_file_path s = p" "list_all (child_of sid) children"
    by (auto simp: unit_ok_def)
  have "list_all (child_of sid) cs \<Longrightarrow> map (bump_subagent_count sid) cs = cs" for cs
    by (induction cs) (simp_all add: bump_child)
  with o have "map (bump_subagent_count sid) children = children" by simp
  with o show ?thesis
    by (simp add: unit_ok_def bump_subagent_count_def)
qed

lemma unit_ok_subagents:
  "unit_ok sid p ops \<Longrightarrow> unit_ok sid p (subagent_ops L sid files ops)"
  unfolding subagent_ops_def
proof (induction files arbitrary: ops)
  case Nil then show ?case by simp
next
  case (Cons f fs)
  have "unit_ok sid p (map (bump_subagent_count sid)
          (ops @ [AddSubagent \<lparr> a_session_id = sid, a_agent_id = path_stem L f,
                                a_message_count = 0, a_first_message = JNull,
                                a_file_path = Some f \<rparr>]))"
    by (intro unit_ok_bump unit_ok_append Cons.prems) (simp add: child_of_def)
  from Cons.IH [OF this] show ?case by simp
qed

lemma associated_children: "list_all (child_of sid) (associated_ops F sid entries)"
  unfolding associated_ops_def
  by (induction entries) (auto simp: child_of_def split: sum.splits)

lemma session_of_fields [simp]:
  "s_id (session_of sid project sm) = sid"
  "s_file_path (session_of sid project sm) = sm_file_path sm"
  by (simp_all add: session_of_def)

lemma claude_session_row_fields [simp]:
  "s_id (claude_session_row L p sm) = sm_id sm"
  "s_file_path (claude_session_row L p sm) = sm_file_path sm"
  by (simp_all add: claude_session_row_def Let_def)

lemma claude_unit_ok:
  assumes "claude_unit L F p sm ms = Inr ops"
  shows "unit_ok (sm_id sm) (sm_file_path sm) ops"
proof -
  let ?s = "claude_session_row L p sm"
  have base: "unit_ok (sm_id sm) (sm_file_path sm)
      (AddSession ?s # map (\<lambda>m. AddMessage (claude_message_row (sm_id sm) JNull m)) ms)"
    using unit_ok_append [OF unit_ok_single [of ?s],
        of "map (\<lambda>m. AddMessage (claude_message_row (sm_id sm) JNull m)) ms"]
    by (simp add: list_all_iff child_of_def claude_message_row_def)
  from assms show ?thesis
    by (auto simp: claude_unit_def Let_def split: sum.splits
        intro!: unit_ok_append unit_ok_subagents base associated_children)
qed

lemma codex_unit_ok:
  "unit_ok (JStr (path_stem L p)) (sm_file_path sm) (codex_unit L p sm ms)"
  unfolding codex_unit_def
  using unit_ok_append [OF unit_ok_single
      [of "session_of (JStr (path_stem L p)) (sm_project sm) sm"],
      of "map (\<lambda>m. AddMessage (codex_message_row (JStr (path_stem L p)) m)) ms"]
  by (simp add: list_all_iff child_of_def codex_message_row_def)

section \<open>Flushing a unit\<close>

lemma flush_children:
  assumes "list_all (child_of sid) cs" "sid \<in> session_ids T"
  shows "(list_all acc cs \<longrightarrow> (\<exists>T'. flush acc cs T = Inr T' \<and> sessions T' = sessions T))
       \<and> (\<not> list_all acc cs \<longrightarrow> flush acc cs T = Inl DBAPIError)"
  using assms
proof (induction cs arbitrary: T)
  case Nil then show ?case by simp
next
  case (Cons c cs)
  from Cons.prems obtain T1 where f: "flush_op c T = Inr T1" and s: "sessions T1 = sessions T"
    by (cases c) (auto simp: child_of_def flush_op_def)
  from s Cons.prems have "sid \<in> session_ids T1" by (simp add: session_ids_def)
  with Cons.IH [of T1] Cons.prems f s show ?case by auto
qed

lemma flush_unit:
  assumes "unit_ok sid p ops"
  shows "((list_all acc ops \<and> sid \<notin> session_ids T) \<longrightarrow>
            (\<exists>T' s. flush acc ops T = Inr T' \<and> sessions T' = sessions T @ [s]
                 \<and> s_file_path s = p \<and> s_id s = sid))
       \<and> (\<not> (list_all acc ops \<and> sid \<notin> session_ids T) \<longrightarrow> (\<exists>e. flush acc ops T = Inl e))"
proof -
  from assms obtain s children where o: "ops = AddSession s # children" "s_id s = sid"
    "s_file_path s = p" "list_all (child_of sid) children"
    by (auto simp: unit_ok_def)
  let ?T1 = "T\<lparr>sessions := sessions T @ [s]\<rparr>"
  have in1: "sid \<in> session_ids ?T1" using o by (simp add: session_ids_def)
  note ch = flush_children [OF o(4) in1, of acc]
  show ?thesis
  proof (cases "acc (AddSession s) \<and> sid \<notin> session_ids T")
    case False
    then show ?thesis using o by (auto simp: flush_op_def)
  next
    case True
    then have "flush acc ops T = flush acc children ?T1"
      using o by (simp add: flush_op_def)
    with ch True o show ?thesis by (cases "list_all acc children") auto
  qed
qed

section \<open>The per-file bodies, unfolded\<close>

lemma db_commit_eq:
  "db_commit d =
     (case flush (driver_accepts d) (pending_ops d) (committed d) of
        Inl err \<Rightarrow> (Inl err, d)
      | Inr T \<Rightarrow> (Inr (), d\<lparr>committed := T, pending_ops := []\<rparr>))"
  by (simp add: db_commit_def)

lemma index_claude_file_eq:
  assumes "pending_ops d = []"
  shows "\<exists>ops. index_claude_file L F force p d =
     (case already_indexed force d p of
        Inl err \<Rightarrow> (Inl err, d)
      | Inr found \<Rightarrow>
          if found then (Inr None, d)
          else
            (case parse_claude_session L F p of
               Inl err \<Rightarrow> (Inl err, d)
             | Inr None \<Rightarrow> (Inr None, d)
             | Inr (Some parsed) \<Rightarrow>
                 (case claude_unit L F p (fst parsed) (snd parsed) of
                    Inl err \<Rightarrow> (Inl err, d\<lparr>pending_ops := ops\<rparr>)
                  | Inr unit \<Rightarrow>
                      (case flush (driver_accepts d) unit (committed d) of
                         Inl err \<Rightarrow> (Inl err, d\<lparr>pending_ops := unit\<rparr>)
                       | Inr T \<Rightarrow>
                           (Inr (Some (length (snd parsed))),
                            d\<lparr>committed := T, pending_ops := []\<rparr>)))))"
proof (cases "already_indexed force d p")
  case (Inl err)
  then show ?thesis by (simp add: index_claude_file_def)
next
  case (Inr found)
  show ?thesis
  proof (cases found)
    case True
    with Inr show ?thesis by (simp add: index_claude_file_def)
  next
    case False
    show ?thesis
    proof (cases "parse_claude_session L F p")
      case (Inl err)
      with Inr False show ?thesis by (simp add: index_claude_file_def)
    next
      case pr: (Inr r)
      show ?thesis
      proof (cases r)
        case None
        with Inr False pr show ?thesis by (simp add: index_claude_file_def)
      next
        case (Some parsed)
        obtain sm ms where parsed: "parsed = (sm, ms)" by (cases parsed)
        let ?s = "claude_session_row L p sm"
        let ?ops2 = "AddSession ?s # map (\<lambda>m. AddMessage (claude_message_row (s_id ?s) JNull m)) ms"
        show ?thesis
        proof (cases "find_claude_subagents L F (s_id ?s) (path_parent L p)")
          case (Inl err)
          with Inr False pr Some parsed assms
          have "index_claude_file L F force p d = (Inl err, d\<lparr>pending_ops := ?ops2\<rparr>)"
            by (simp add: index_claude_file_def Let_def add_messages_eq db_add_def
                claude_session_row_def)
          moreover from Inl have "claude_unit L F p sm ms = Inl err"
            by (simp add: claude_unit_def Let_def)
          ultimately show ?thesis using Inr False pr Some parsed by auto
        next
          case sub: (Inr files)
          let ?ops3 = "subagent_ops L (s_id ?s) files ?ops2"
          show ?thesis
          proof (cases "find_associated_files F (s_id ?s)")
            case (Inl err)
            with Inr False pr Some parsed assms sub
            have "index_claude_file L F force p d = (Inl err, d\<lparr>pending_ops := ?ops3\<rparr>)"
              by (simp add: index_claude_file_def Let_def add_messages_eq db_add_def
                  claude_session_row_def add_subagents_eq)
            moreover from Inl sub have "claude_unit L F p sm ms = Inl err"
              by (simp add: claude_unit_def Let_def)
            ultimately show ?thesis using Inr False pr Some parsed by auto
          next
            case af: (Inr entries)
            let ?unit = "?ops3 @ associated_ops F (s_id ?s) entries"
            from af sub have u: "claude_unit L F p sm ms = Inr ?unit"
              by (simp add: claude_unit_def Let_def)
            from Inr False pr Some parsed assms sub af
            have "index_claude_file L F force p d =
                (case flush (driver_accepts d) ?unit (committed d) of
                   Inl err \<Rightarrow> (Inl err, d\<lparr>pending_ops := ?unit\<rparr>)
                 | Inr T \<Rightarrow> (Inr (Some (length ms)), d\<lparr>committed := T, pending_ops := []\<rparr>))"
              by (simp add: index_claude_file_def Let_def add_messages_eq db_add_def
                  claude_session_row_def add_subagents_eq add_associated_eq db_commit_eq
                  split: sum.splits)
            with u Inr False pr Some parsed show ?thesis by (simp split: sum.splits)
          qed
        qed
      qed
    qed
  qed
qed

lemma index_codex_file_eq:
  assumes "pending_ops d = []"
  shows "index_codex_file L F force p d =
     (case already_indexed force d p of
        Inl err \<Rightarrow> (Inl err, d)
      | Inr found \<Rightarrow>
          if found then (Inr None, d)
          else
            (case parse_codex_session L F p of
               Inl err \<Rightarrow> (Inl err, d)
             | Inr None \<Rightarrow> (Inr None, d)
             | Inr (Some parsed) \<Rightarrow>
                 (case flush (driver_accepts d) (codex_unit L p (fst parsed) (snd parsed))
                         (committed d) of
                    Inl err \<Rightarrow>
                      (Inl err, d\<lparr>pending_ops := codex_unit L p (fst parsed) (snd parsed)\<rparr>)
                  | Inr T \<Rightarrow>
                      (Inr (Some (length (snd parsed))),
                       d\<lparr>committed := T, pending_ops := []\<rparr>))))"
  using assms
  by (simp add: index_codex_file_def Let_def add_messages_eq db_add_def db_commit_eq
      codex_unit_def split: sum.splits option.splits prod.splits bool.splits)

section \<open>The file path of a parsed session\<close>

lemma run_entries_invariant:
  assumes step: "\<And>s e s'. step s e = Inr s' \<Longrightarrow> P s \<Longrightarrow> P s'"
  shows "run_entries step st es = Inr st' \<Longrightarrow> P st \<Longrightarrow> P st'"
proof (induction es arbitrary: st)
  case Nil then show ?case by simp
next
  case (Cons e es)
  then show ?case using step by (auto split: sum.splits)
qed

lemma claude_entry_file_path:
  "claude_entry L st e = Inr st' \<Longrightarrow> sm_file_path (ps_meta st) = p \<Longrightarrow>
     sm_file_path (ps_meta st') = p"
  by (cases e)
     (auto simp: claude_entry_def claude_user_def claude_assistant_def claude_update_meta_def
       Let_def split: if_splits sum.splits)

lemma codex_entry_file_path:
  "codex_entry L fp st e = Inr st' \<Longrightarrow> sm_file_path (ps_meta st) = p \<Longrightarrow>
     sm_file_path (ps_meta st') = p"
proof (cases e)
  case (JObj entry)
  assume a: "codex_entry L fp st e = Inr st'" and i: "sm_file_path (ps_meta st) = p"
  have m: "codex_session_meta L fp pl ts st = Inr s' \<Longrightarrow> sm_file_path (ps_meta s') = p"
    for pl ts s'
    using i by (cases pl) (auto simp: codex_session_meta_def Let_def)
  have r: "codex_response_item L pl ts st = Inr s' \<Longrightarrow> sm_file_path (ps_meta s') = p"
    for pl ts s'
    using i by (cases pl)
      (auto simp: codex_response_item_def codex_append_def Let_def split: if_splits sum.splits)
  from a JObj i m r show ?thesis
    by (auto simp: codex_entry_def Let_def split: if_splits sum.splits)
qed (simp_all add: codex_entry_def)

lemma parse_claude_file_path:
  assumes "parse_claude_session L F p = Inr (Some (sm, ms))"
  shows "sm_file_path sm = p"
proof -
  from assms obtain st where
    r: "run_entries (claude_entry L) (claude_init L p) (fst (read_jsonl F p)) = Inr st"
    and m: "sm = finish_meta st"
    by (auto simp: parse_claude_session_def parse_claude_stream_def
        split: sum.splits option.splits if_splits)
  have "sm_file_path (ps_meta st) = p"
    by (rule run_entries_invariant [where P = "\<lambda>s. sm_file_path (ps_meta s) = p", OF _ r])
       (auto simp: claude_init_def intro: claude_entry_file_path)
  with m show ?thesis by (simp add: finish_meta_def)
qed

lemma parse_codex_file_path:
  assumes "parse_codex_session L F p = Inr (Some (sm, ms))"
  shows "sm_file_path sm = p"
proof -
  from assms obtain st where
    r: "run_entries (codex_entry L p) (codex_init p) (fst (read_jsonl F p)) = Inr st"
    and m: "sm = codex_finish_meta L p st"
    by (auto simp: parse_codex_session_def parse_codex_stream_def
        split: sum.splits option.splits if_splits)
  have "sm_file_path (ps_meta st) = p"
    by (rule run_entries_invariant [where P = "\<lambda>s. sm_file_path (ps_meta s) = p", OF _ r])
       (auto simp: codex_init_def intro: codex_entry_file_path)
  with m show ?thesis by (simp add: codex_finish_meta_def finish_meta_def Let_def)
qed

lemma claude_per_file_body:
  "per_file_body force (claude_plan L F) (index_claude_file L F force)"
  unfolding per_file_body_def
proof (intro allI impI conjI)
  fix p and d :: db assume pe: "pending_ops d = []"
  from index_claude_file_eq [OF pe, of L F force p] obtain ops where
    e: "index_claude_file L F force p d =
     (case already_indexed force d p of
        Inl err \<Rightarrow> (Inl err, d)
      | Inr found \<Rightarrow>
          if found then (Inr None, d)
          else
            (case parse_claude_session L F p of
               Inl err \<Rightarrow> (Inl err, d)
             | Inr None \<Rightarrow> (Inr None, d)
             | Inr (Some parsed) \<Rightarrow>
                 (case claude_unit L F p (fst parsed) (snd parsed) of
                    Inl err \<Rightarrow> (Inl err, d\<lparr>pending_ops := ops\<rparr>)
                  | Inr unit \<Rightarrow>
                      (case flush (driver_accepts d) unit (committed d) of
                         Inl err \<Rightarrow> (Inl err, d\<lparr>pending_ops := unit\<rparr>)
                       | Inr T \<Rightarrow>
                           (Inr (Some (length (snd parsed))),
                            d\<lparr>committed := T, pending_ops := []\<rparr>)))))"
    by blast
  have dd: "d\<lparr>pending_ops := []\<rparr> = d" using pe by simp
  show "\<exists>ops. index_claude_file L F force p d =
           (case already_indexed force d p of
              Inl err \<Rightarrow> (Inl err, d)
            | Inr found \<Rightarrow>
                if found then (Inr None, d)
                else
                  (case claude_plan L F p of
                     Inl err \<Rightarrow> (Inl err, d\<lparr>pending_ops := ops\<rparr>)
                   | Inr None \<Rightarrow> (Inr None, d)
                   | Inr (Some planned) \<Rightarrow>
                       (case flush (driver_accepts d) (fst planned) (committed d) of
                          Inl err \<Rightarrow> (Inl err, d\<lparr>pending_ops := fst planned\<rparr>)
                        | Inr T \<Rightarrow>
                            (Inr (Some (snd planned)),
                             d\<lparr>committed := T, pending_ops := []\<rparr>))))"
  proof (cases "parse_claude_session L F p")
    case (Inl err)
    with e dd show ?thesis
      by (intro exI [of _ "[]"]) (simp add: claude_plan_def split: sum.splits)
  next
    case (Inr r)
    then show ?thesis
    proof (cases r)
      case None
      with e Inr show ?thesis by (simp add: claude_plan_def split: sum.splits)
    next
      case (Some parsed)
      with e Inr show ?thesis
        by (intro exI [of _ ops]) (simp add: claude_plan_def split: sum.splits)
    qed
  qed
next
  fix p and d :: db and planned
  assume "claude_plan L F p = Inr (Some planned)"
  then obtain sm ms where pr: "parse_claude_session L F p = Inr (Some (sm, ms))"
    and u: "claude_unit L F p sm ms = Inr (fst planned)"
    by (auto simp: claude_plan_def split: sum.splits option.splits)
  from claude_unit_ok [OF u] parse_claude_file_path [OF pr]
  show "\<exists>session_id. unit_ok session_id p (fst planned)" by auto
qed

lemma codex_per_file_body:
  "per_file_body force (codex_plan L F) (index_codex_file L F force)"
  unfolding per_file_body_def
proof (intro allI impI conjI)
  fix p and d :: db assume pe: "pending_ops d = []"
  have dd: "d\<lparr>pending_ops := []\<rparr> = d" using pe by simp
  show "\<exists>ops. index_codex_file L F force p d =
           (case already_indexed force d p of
              Inl err \<Rightarrow> (Inl err, d)
            | Inr found \<Rightarrow>
                if found then (Inr None, d)
                else
                  (case codex_plan L F p of
                     Inl err \<Rightarrow> (Inl err, d\<lparr>pending_ops := ops\<rparr>)
                   | Inr None \<Rightarrow> (Inr None, d)
                   | Inr (Some planned) \<Rightarrow>
                       (case flush (driver_accepts d) (fst planned) (committed d) of
                          Inl err \<Rightarrow> (Inl err, d\<lparr>pending_ops := fst planned\<rparr>)
                        | Inr T \<Rightarrow>
                            (Inr (Some (snd planned)),
                             d\<lparr>committed := T, pending_ops := []\<rparr>))))"
    using dd
    by (intro exI [of _ "[]"])
       (simp add: index_codex_file_eq [OF pe] codex_plan_def split: sum.splits option.splits)
next
  fix p and d :: db and planned
  assume "codex_plan L F p = Inr (Some planned)"
  then obtain sm ms where pr: "parse_codex_session L F p = Inr (Some (sm, ms))"
    and u: "fst planned = codex_unit L p sm ms"
    by (auto simp: codex_plan_def split: sum.splits option.splits)
  from codex_unit_ok [of L p sm ms] parse_codex_file_path [OF pr] u
  show "\<exists>session_id. unit_ok session_id p (fst planned)" by auto
qed

section \<open>One file\<close>

lemma rollback_pending: "pending_ops d = [] \<Longrightarrow> db_rollback (d\<lparr>pending_ops := ops\<rparr>) = d"
  by (simp add: db_rollback_def)

lemma body_failure:
  assumes b: "per_file_body force plan body" and pe: "pending_ops d = []"
    and f: "fst (body p d) = Inl err"
  shows "db_rollback (snd (body p d)) = d"
proof -
  from b pe obtain ops where e: "body p d =
           (case already_indexed force d p of
              Inl err \<Rightarrow> (Inl err, d)
            | Inr found \<Rightarrow>
                if found then (Inr None, d)
                else
                  (case plan p of
                     Inl err \<Rightarrow> (Inl err, d\<lparr>pending_ops := ops\<rparr>)
                   | Inr None \<Rightarrow> (Inr None, d)
                   | Inr (Some planned) \<Rightarrow>
                       (case flush (driver_accepts d) (fst planned) (committed d) of
                          Inl err \<Rightarrow> (Inl err, d\<lparr>pending_ops := fst planned\<rparr>)
                        | Inr T \<Rightarrow>
                            (Inr (Some (snd planned)),
                             d\<lparr>committed := T, pending_ops := []\<rparr>))))"
    unfolding per_file_body_def by blast
  from f show ?thesis
    unfolding e using pe
    by (auto simp: rollback_pending db_rollback_def split: sum.splits option.splits if_splits)
qed

lemma body_skip:
  assumes b: "per_file_body force plan body" and pe: "pending_ops d = []"
    and f: "fst (body p d) = Inr None"
  shows "snd (body p d) = d"
proof -
  from b pe obtain ops where e: "body p d =
           (case already_indexed force d p of
              Inl err \<Rightarrow> (Inl err, d)
            | Inr found \<Rightarrow>
                if found then (Inr None, d)
                else
                  (case plan p of
                     Inl err \<Rightarrow> (Inl err, d\<lparr>pending_ops := ops\<rparr>)
                   | Inr None \<Rightarrow> (Inr None, d)
                   | Inr (Some planned) \<Rightarrow>
                       (case flush (driver_accepts d) (fst planned) (committed d) of
                          Inl err \<Rightarrow> (Inl err, d\<lparr>pending_ops := fst planned\<rparr>)
                        | Inr T \<Rightarrow>
                            (Inr (Some (snd planned)),
                             d\<lparr>committed := T, pending_ops := []\<rparr>))))"
    unfolding per_file_body_def by blast
  from f show ?thesis
    unfolding e by (auto split: sum.splits option.splits if_splits)
qed

lemma body_success:
  assumes b: "per_file_body force plan body" and pe: "pending_ops d = []"
    and f: "fst (body p d) = Inr (Some n)"
  shows "\<exists>unit T sid s. already_indexed force d p = Inr False \<and> plan p = Inr (Some (unit, n))
           \<and> unit_ok sid p unit \<and> list_all (driver_accepts d) unit
           \<and> sid \<notin> session_ids (committed d)
           \<and> flush (driver_accepts d) unit (committed d) = Inr T
           \<and> sessions T = sessions (committed d) @ [s] \<and> s_file_path s = p \<and> s_id s = sid
           \<and> snd (body p d) = d\<lparr>committed := T, pending_ops := []\<rparr>"
proof -
  from b pe obtain ops where e: "body p d =
           (case already_indexed force d p of
              Inl err \<Rightarrow> (Inl err, d)
            | Inr found \<Rightarrow>
                if found then (Inr None, d)
                else
                  (case plan p of
                     Inl err \<Rightarrow> (Inl err, d\<lparr>pending_ops := ops\<rparr>)
                   | Inr None \<Rightarrow> (Inr None, d)
                   | Inr (Some planned) \<Rightarrow>
                       (case flush (driver_accepts d) (fst planned) (committed d) of
                          Inl err \<Rightarrow> (Inl err, d\<lparr>pending_ops := fst planned\<rparr>)
                        | Inr T \<Rightarrow>
                            (Inr (Some (snd planned)),
                             d\<lparr>committed := T, pending_ops := []\<rparr>))))"
    and u: "\<forall>planned. plan p = Inr (Some planned) \<longrightarrow> (\<exists>sid. unit_ok sid p (fst planned))"
    unfolding per_file_body_def by blast
  from f e obtain unit T where
    a: "already_indexed force d p = Inr False" and pl: "plan p = Inr (Some (unit, n))"
    and fl: "flush (driver_accepts d) unit (committed d) = Inr T"
    and s: "snd (body p d) = d\<lparr>committed := T, pending_ops := []\<rparr>"
    by (auto split: sum.splits option.splits if_splits)
  from u pl obtain sid where ok: "unit_ok sid p unit" by fastforce
  from flush_unit [OF ok, of "driver_accepts d" "committed d"] fl
  obtain s where "list_all (driver_accepts d) unit" "sid \<notin> session_ids (committed d)"
    "sessions T = sessions (committed d) @ [s]" "s_file_path s = p" "s_id s = sid"
    by (cases "list_all (driver_accepts d) unit \<and> sid \<notin> session_ids (committed d)") auto
  with a pl ok fl s show ?thesis by blast
qed

lemma body_success_iff:
  assumes b: "per_file_body force plan body" and pe: "pending_ops d = []"
    and a: "already_indexed force d p = Inr False" and pl: "plan p = Inr (Some (unit, n))"
    and ok: "unit_ok sid p unit" and acc: "list_all (driver_accepts d) unit"
    and fresh: "sid \<notin> session_ids (committed d)"
  shows "fst (body p d) = Inr (Some n)"
proof -
  from b pe obtain ops where e: "body p d =
           (case already_indexed force d p of
              Inl err \<Rightarrow> (Inl err, d)
            | Inr found \<Rightarrow>
                if found then (Inr None, d)
                else
                  (case plan p of
                     Inl err \<Rightarrow> (Inl err, d\<lparr>pending_ops := ops\<rparr>)
                   | Inr None \<Rightarrow> (Inr None, d)
                   | Inr (Some planned) \<Rightarrow>
                       (case flush (driver_accepts d) (fst planned) (committed d) of
                          Inl err \<Rightarrow> (Inl err, d\<lparr>pending_ops := fst planned\<rparr>)
                        | Inr T \<Rightarrow>
                            (Inr (Some (snd planned)),
                             d\<lparr>committed := T, pending_ops := []\<rparr>))))"
    unfolding per_file_body_def by blast
  from flush_unit [OF ok, of "driver_accepts d" "committed d"] acc fresh
  obtain T where "flush (driver_accepts d) unit (committed d) = Inr T" by auto
  with a pl show ?thesis unfolding e by simp
qed

section \<open>A store that has grown\<close>

lemma grows_refl: "pending_ops d = [] \<Longrightarrow> grows d d"
  by (simp add: grows_def)

lemma grows_trans: "grows a b \<Longrightarrow> grows b c \<Longrightarrow> grows a c"
  by (auto simp: grows_def)

lemma lookup_monotone:
  assumes "grows d d'" and "already_indexed False d' p = Inr False"
  shows "already_indexed False d p = Inr False"
proof -
  from assms(1) obtain new where n: "sessions (committed d') = sessions (committed d) @ new"
    by (auto simp: grows_def)
  from assms(2) have "filter (\<lambda>s. s_file_path s = p) (sessions (committed d')) = []"
    by (auto simp: already_indexed_def session_by_file_path_def scalar_one_or_none_def
        split: sum.splits list.splits)
  with n have "filter (\<lambda>s. s_file_path s = p) (sessions (committed d)) = []" by simp
  then show ?thesis
    by (simp add: already_indexed_def session_by_file_path_def scalar_one_or_none_def)
qed

lemma present_not_missing:
  assumes "s \<in> set (sessions (committed d))" "s_file_path s = p"
  shows "already_indexed False d p \<noteq> Inr False"
proof -
  from assms have "filter (\<lambda>s. s_file_path s = p) (sessions (committed d)) \<noteq> []"
    by (auto simp: filter_empty_conv)
  then show ?thesis
    by (auto simp: already_indexed_def session_by_file_path_def scalar_one_or_none_def
        split: sum.splits list.splits)
qed

lemma quiet_grows:
  assumes b: "per_file_body False plan body" and g: "grows d d'" and q: "quiet body p d"
  shows "quiet body p d'"
  unfolding quiet_def
proof (intro allI notI)
  fix n assume f: "fst (body p d') = Inr (Some n)"
  from g have pe: "pending_ops d = []" "pending_ops d' = []"
    and dr: "driver_accepts d' = driver_accepts d"
    and sub: "session_ids (committed d) \<subseteq> session_ids (committed d')"
    by (auto simp: grows_def session_ids_def)
  from body_success [OF b pe(2) f] obtain unit sid where
    a: "already_indexed False d' p = Inr False" and pl: "plan p = Inr (Some (unit, n))"
    and ok: "unit_ok sid p unit" and acc: "list_all (driver_accepts d') unit"
    and fresh: "sid \<notin> session_ids (committed d')"
    by blast
  from body_success_iff [OF b pe(1) lookup_monotone [OF g a] pl ok] acc fresh dr sub
  have "fst (body p d) = Inr (Some n)" by auto
  with q show False by (simp add: quiet_def)
qed

lemma quiet_present:
  assumes b: "per_file_body False plan body" and pe: "pending_ops d = []"
    and s: "s \<in> set (sessions (committed d))" "s_file_path s = p"
  shows "quiet body p d"
  unfolding quiet_def
proof (intro allI notI)
  fix n assume f: "fst (body p d) = Inr (Some n)"
  from body_success [OF b pe f] present_not_missing [OF s] show False by blast
qed

section \<open>The loop\<close>

lemma index_files_step:
  "index_files body (p # rest) (d, sc, mc, ec) =
     (case fst (body p d) of
        Inl err \<Rightarrow> index_files body rest (db_rollback (snd (body p d)), sc, mc, ec + 1)
      | Inr None \<Rightarrow> index_files body rest (snd (body p d), sc, mc, ec)
      | Inr (Some n) \<Rightarrow> index_files body rest (snd (body p d), sc + 1, mc + n, ec))"
  by (cases "body p d") (auto split: sum.splits option.splits)

lemma index_files_append:
  "index_files body (xs @ ys) acc = index_files body ys (index_files body xs acc)"
proof (induction xs arbitrary: acc)
  case Nil then show ?case by simp
next
  case (Cons p xs)
  obtain d sc mc ec where acc: "acc = (d, sc, mc, ec)" by (cases acc)
  show ?case unfolding acc append_Cons index_files_step
    by (simp add: Cons.IH split: sum.splits option.splits)
qed

lemma step_grows:
  assumes b: "per_file_body force plan body" and pe: "pending_ops d = []"
  shows "(case fst (body p d) of
            Inl err \<Rightarrow> db_rollback (snd (body p d)) = d
          | Inr None \<Rightarrow> snd (body p d) = d
          | Inr (Some n) \<Rightarrow> grows d (snd (body p d))
              \<and> (\<exists>s \<in> set (sessions (committed (snd (body p d)))). s_file_path s = p))"
proof (cases "fst (body p d)")
  case (Inl err)
  with body_failure [OF b pe] show ?thesis by simp
next
  case (Inr r)
  show ?thesis
  proof (cases r)
    case None
    with Inr body_skip [OF b pe] show ?thesis by simp
  next
    case (Some n)
    with Inr body_success [OF b pe, of p n] pe show ?thesis
      by (auto simp: grows_def)
  qed
qed

lemma index_files_grows:
  assumes b: "per_file_body False plan body"
  shows "pending_ops d = [] \<Longrightarrow> index_files body ps (d, sc, mc, ec) = (d', c') \<Longrightarrow>
           grows d d' \<and> (\<forall>p \<in> set ps. quiet body p d')"
proof (induction ps arbitrary: d sc mc ec)
  case Nil
  then show ?case by (simp add: grows_refl)
next
  case (Cons p ps)
  note sg = step_grows [OF b Cons.prems(1), of p]
  show ?case
  proof (cases "fst (body p d)")
    case (Inl err)
    with sg have d1: "db_rollback (snd (body p d)) = d" by simp
    with Cons.prems Inl have r: "index_files body ps (d, sc, mc, ec + 1) = (d', c')"
      by (simp add: index_files_step del: index_files.simps)
    from Cons.IH [OF Cons.prems(1) r] have g: "grows d d'" and q: "\<forall>p \<in> set ps. quiet body p d'"
      by auto
    have "quiet body p d" using Inl by (simp add: quiet_def)
    with quiet_grows [OF b g] g q show ?thesis by auto
  next
    case (Inr r0)
    show ?thesis
    proof (cases r0)
      case None
      with sg Inr have d1: "snd (body p d) = d" by simp
      with Cons.prems Inr None have r: "index_files body ps (d, sc, mc, ec) = (d', c')"
        by (simp add: index_files_step del: index_files.simps)
      from Cons.IH [OF Cons.prems(1) r] have g: "grows d d'"
        and q: "\<forall>p \<in> set ps. quiet body p d'"
        by auto
      have "quiet body p d" using Inr None by (simp add: quiet_def)
      with quiet_grows [OF b g] g q show ?thesis by auto
    next
      case (Some n)
      let ?d1 = "snd (body p d)"
      from sg Inr Some have g1: "grows d ?d1"
        and pres: "\<exists>s \<in> set (sessions (committed ?d1)). s_file_path s = p"
        by auto
      from g1 have pe1: "pending_ops ?d1 = []" by (simp add: grows_def)
      from Cons.prems Inr Some have r: "index_files body ps (?d1, sc + 1, mc + n, ec) = (d', c')"
        by (simp add: index_files_step del: index_files.simps)
      from Cons.IH [OF pe1 r] have g: "grows ?d1 d'" and q: "\<forall>p \<in> set ps. quiet body p d'"
        by auto
      from pres quiet_present [OF b pe1] have "quiet body p ?d1" by blast
      with quiet_grows [OF b g] grows_trans [OF g1 g] q show ?thesis by auto
    qed
  qed
qed

lemma index_files_quiet:
  assumes b: "per_file_body force plan body"
  shows "pending_ops d = [] \<Longrightarrow> \<forall>p \<in> set ps. quiet body p d \<Longrightarrow>
           \<exists>ec'. index_files body ps (d, sc, mc, ec) = (d, sc, mc, ec')"
proof (induction ps arbitrary: ec)
  case Nil then show ?case by simp
next
  case (Cons p ps)
  note sg = step_grows [OF b Cons.prems(1), of p]
  from Cons.prems have q: "quiet body p d" and qs: "\<forall>p \<in> set ps. quiet body p d" by auto
  show ?case
  proof (cases "fst (body p d)")
    case (Inl err)
    with sg have "db_rollback (snd (body p d)) = d" by simp
    with Inl Cons.IH [OF Cons.prems(1) qs, of "ec + 1"] show ?thesis
      by (simp add: index_files_step del: index_files.simps)
  next
    case (Inr r0)
    show ?thesis
    proof (cases r0)
      case None
      with sg Inr have "snd (body p d) = d" by simp
      with Inr None Cons.IH [OF Cons.prems(1) qs, of ec] show ?thesis
        by (simp add: index_files_step del: index_files.simps)
    next
      case (Some n)
      with Inr q show ?thesis by (simp add: quiet_def)
    qed
  qed
qed

section \<open>Failures and repeated runs\<close>

lemma index_files_pending:
  assumes b: "per_file_body force plan body"
  shows "pending_ops d = [] \<Longrightarrow> index_files body ps (d, sc, mc, ec) = (d', c') \<Longrightarrow>
           pending_ops d' = [] \<and> driver_accepts d' = driver_accepts d"
proof (induction ps arbitrary: d sc mc ec)
  case Nil then show ?case by simp
next
  case (Cons p ps)
  note sg = step_grows [OF b Cons.prems(1), of p]
  show ?case
  proof (cases "fst (body p d)")
    case (Inl err)
    with sg have "db_rollback (snd (body p d)) = d" by simp
    with Cons.prems Inl Cons.IH [of d sc mc "ec + 1"] show ?thesis
      by (simp add: index_files_step del: index_files.simps)
  next
    case (Inr r0)
    show ?thesis
    proof (cases r0)
      case None
      with sg Inr have "snd (body p d) = d" by simp
      with Cons.prems Inr None Cons.IH [of d sc mc ec] show ?thesis
        by (simp add: index_files_step del: index_files.simps)
    next
      case (Some n)
      with sg Inr have g: "grows d (snd (body p d))" by simp
      then have "pending_ops (snd (body p d)) = []"
        "driver_accepts (snd (body p d)) = driver_accepts d"
        by (simp_all add: grows_def)
      with Cons.prems Inr Some Cons.IH [of "snd (body p d)" "sc + 1" "mc + n" ec]
      show ?thesis
        by (simp add: index_files_step del: index_files.simps)
    qed
  qed
qed

lemma index_all_sessions_completes:
  "\<not> is_indexing g \<Longrightarrow> \<exists>c. fst (index_all_sessions L F d force g) = Completed c"
  by (auto simp: index_all_sessions_def split: prod.splits sum.splits)

text \<open>
  C2: take either coordinator loop, started with nothing pending, and a candidate file
  whose processing raises, anywhere in the sequence of candidates. The rollback returns
  the database session to exactly the state it had before that file (what earlier files
  committed stays, what this file added is gone); the loop goes on with the next file,
  with the error counter one higher and the two other counters unchanged; and the run as
  a whole returns its counts, it never raises.
\<close>

theorem partial_failure_isolation:
  assumes "body = index_claude_file L F force \<or> body = index_codex_file L F force"
    and "pending_ops d = []"
    and "index_files body before (d, 0, 0, 0) = (d1, session_count, message_count, error_count)"
    and "fst (body file_path d1) = Inl err"
  shows "db_rollback (snd (body file_path d1)) = d1
       \<and> index_files body (before @ file_path # after) (d, 0, 0, 0)
           = index_files body after (d1, session_count, message_count, error_count + 1)
       \<and> (\<not> is_indexing g \<longrightarrow> (\<exists>c. fst (index_all_sessions L F d force g) = Completed c))"
proof -
  from assms(1) obtain plan where b: "per_file_body force plan body"
    using claude_per_file_body codex_per_file_body by blast
  from index_files_pending [OF b assms(2,3)] have pe: "pending_ops d1 = []" by simp
  from body_failure [OF b pe assms(4)] have r: "db_rollback (snd (body file_path d1)) = d1" .
  have "index_files body (before @ file_path # after) (d, 0, 0, 0)
          = index_files body (file_path # after) (d1, session_count, message_count, error_count)"
    by (simp add: index_files_append assms(3) del: index_files.simps)
  also have "\<dots> = index_files body after (d1, session_count, message_count, error_count + 1)"
    using assms(4) r by (simp add: index_files_step del: index_files.simps)
  finally show ?thesis using r index_all_sessions_completes by blast
qed

theorem partial_failure_isolation_witness:
  "\<exists>d1. index_files (index_claude_file example_lib example_fs False)
           [''/claude/projects/-work-app/s1.jsonl''] (empty_store, 0, 0, 0) = (d1, 1, 3, 0)
     \<and> fst (index_claude_file example_lib example_fs False
               ''/claude/projects/-work-app/s2.jsonl'' d1) = Inl OSError
     \<and> db_rollback (snd (index_claude_file example_lib example_fs False
                            ''/claude/projects/-work-app/s2.jsonl'' d1)) = d1
     \<and> index_files (index_claude_file example_lib example_fs False)
           ([''/claude/projects/-work-app/s1.jsonl'']
              @ ''/claude/projects/-work-app/s2.jsonl''
              # [''/claude/projects/-work-app/s3.jsonl''])
           (empty_store, 0, 0, 0)
         = index_files (index_claude_file example_lib example_fs False)
             [''/claude/projects/-work-app/s3.jsonl''] (d1, 1, 3, 0 + 1)
     \<and> (\<exists>c. fst (index_all_sessions example_lib example_fs empty_store False idle)
               = Completed c)"
proof -
  define d1 where "d1 = fst (index_files (index_claude_file example_lib example_fs False)
           [''/claude/projects/-work-app/s1.jsonl''] (empty_store, 0, 0, 0))"
  have e: "index_files (index_claude_file example_lib example_fs False)
           [''/claude/projects/-work-app/s1.jsonl''] (empty_store, 0, 0, 0) = (d1, 1, 3, 0)"
    unfolding d1_def by (simp add: parser_defs store_defs example_defs Let_def)
  have f: "fst (index_claude_file example_lib example_fs False
               ''/claude/projects/-work-app/s2.jsonl'' d1) = Inl OSError"
    unfolding d1_def by (simp add: parser_defs store_defs example_defs Let_def)
  have pe: "pending_ops empty_store = []" and i: "\<not> is_indexing idle"
    by (simp_all add: empty_store_def idle_def)
  have b: "index_claude_file example_lib example_fs False
             = index_claude_file example_lib example_fs False
           \<or> index_claude_file example_lib example_fs False
             = index_codex_file example_lib example_fs False"
    by simp
  from partial_failure_isolation [OF b pe e f, where after = "[''/claude/projects/-work-app/s3.jsonl'']"
      and g = idle] e f i
  show ?thesis by blast
qed

section \<open>Two runs\<close>

lemma index_scan_first:
  assumes b: "per_file_body False plan body" and pe: "pending_ops d = []"
    and r: "index_scan body scan d = (r1, d1)"
  shows "grows d d1 \<and> (\<forall>p \<in> set (fst scan). quiet body p d1)"
proof -
  obtain d' c' where i: "index_files body (fst scan) (d, 0, 0, 0) = (d', c')"
    by (cases "index_files body (fst scan) (d, 0, 0, 0)")
  with r have "d1 = d'"
    by (auto simp: index_scan_def split: prod.splits option.splits)
  with index_files_grows [OF b pe i] show ?thesis by simp
qed

lemma index_scan_again:
  assumes b: "per_file_body False plan body" and pe: "pending_ops d = []"
    and q: "\<forall>p \<in> set (fst scan). quiet body p d"
  shows "snd (index_scan body scan d) = d
       \<and> (case fst (index_scan body scan d) of
             Inl err \<Rightarrow> True
           | Inr (session_count, message_count, error_count) \<Rightarrow>
               session_count = 0 \<and> message_count = 0)"
proof -
  from index_files_quiet [OF b pe q, of 0 0 0] obtain ec' where
    "index_files body (fst scan) (d, 0, 0, 0) = (d, 0, 0, ec')" by blast
  then show ?thesis by (simp add: index_scan_def split: option.splits)
qed

text \<open>
  C1, as stated, at the example: its reason, that every scanned path has a Session row
  after the first run and is skipped, fails for the file that holds only a snapshot
  marker. The first run creates no row for it, so the second run finds none and goes on
  to parse the file again.
\<close>

theorem incremental_run_reparses_counterexample:
  "''/claude/projects/-work-app/s4.jsonl'' \<in> set (fst (scan_claude_sessions example_fs))
   \<and> index_all_sessions example_lib example_fs empty_store False idle
       = (Completed \<lparr>claude_sessions = 2, codex_sessions = 2, total_messages = 5, errors = 1\<rparr>,
          indexed_store, idle\<lparr>last_indexed := Some UtcNow\<rparr>)
   \<and> filter (\<lambda>s. s_file_path s = ''/claude/projects/-work-app/s4.jsonl'')
         (sessions (committed indexed_store)) = []
   \<and> already_indexed False indexed_store ''/claude/projects/-work-app/s4.jsonl'' = Inr False"
  using example_first_run
  by (simp add: example_fs_def indexed_store_def indexed_tables_def already_indexed_def
      session_by_file_path_def scalar_one_or_none_def)

text \<open>
  C1 (amended): run the index without forcing, then run it again over the same tree. The
  second run leaves the store as the first left it, and reports no session and no message
  indexed. A path whose Session row exists is skipped without being parsed (whatever the
  file now holds); a path without one, an empty session or a file that failed, is
  processed again and again adds nothing.
\<close>

theorem incremental_run_idempotent:
  assumes pe: "pending_ops d = []" and idle: "\<not> is_indexing g"
    and r1: "index_all_sessions L F d False g = (first, d1, g1)"
    and r2: "index_all_sessions L F d1 False g1 = (second, d2, g2)"
  shows "d2 = d1
       \<and> (\<exists>c. second = Completed c \<and> claude_sessions c = 0 \<and> codex_sessions c = 0
                \<and> total_messages c = 0)
       \<and> (\<forall>F' file_path s.
            filter (\<lambda>s. s_file_path s = file_path) (sessions (committed d1)) = [s] \<longrightarrow>
              index_claude_file L F' False file_path d1 = (Inr None, d1)
              \<and> index_codex_file L F' False file_path d1 = (Inr None, d1))"
proof (intro conjI allI impI)
  let ?A = "index_claude_file L F False" and ?B = "index_codex_file L F False"
  note bA = claude_per_file_body [of False L F] and bB = codex_per_file_body [of False L F]
  obtain ra da where A1: "index_scan ?A (scan_claude_sessions F) d = (ra, da)"
    by (cases "index_scan ?A (scan_claude_sessions F) d")
  from index_scan_first [OF bA pe A1] have gA: "grows d da"
    and qA: "\<forall>p \<in> set (fst (scan_claude_sessions F)). quiet ?A p da" by auto
  from gA have peA: "pending_ops da = []" by (simp add: grows_def)
  from r1 idle have g1: "\<not> is_indexing g1"
    by (auto simp: index_all_sessions_def split: prod.splits sum.splits)
  have main: "d2 = d1 \<and> (\<exists>c. second = Completed c \<and> claude_sessions c = 0
      \<and> codex_sessions c = 0 \<and> total_messages c = 0)"
  proof (cases ra)
    case (Inl err)
    with r1 idle A1 have d1: "d1 = da"
      by (simp add: index_all_sessions_def index_claude_sessions_def)
    from index_scan_again [OF bA peA qA] obtain x where
      "index_scan ?A (scan_claude_sessions F) da = (x, da)"
      "case x of Inl err \<Rightarrow> True | Inr (sc, mc, ec) \<Rightarrow> sc = 0 \<and> mc = 0"
      by (cases "index_scan ?A (scan_claude_sessions F) da") auto
    moreover from A1 Inl have "snd (scan_claude_sessions F) \<noteq> None"
      by (auto simp: index_scan_def split: prod.splits option.splits)
    ultimately have "index_scan ?A (scan_claude_sessions F) da = (x, da) \<and> (\<exists>e. x = Inl e)"
      by (auto simp: index_scan_def split: prod.splits option.splits)
    with r2 g1 d1 show ?thesis
      by (auto simp: index_all_sessions_def index_claude_sessions_def)
  next
    case (Inr counts)
    obtain rb db where B1: "index_scan ?B (scan_codex_sessions F) da = (rb, db)"
      by (cases "index_scan ?B (scan_codex_sessions F) da")
    from index_scan_first [OF bB peA B1] have gB: "grows da db"
      and qB: "\<forall>p \<in> set (fst (scan_codex_sessions F)). quiet ?B p db" by auto
    from gB have peB: "pending_ops db = []" by (simp add: grows_def)
    from r1 idle A1 Inr B1 have d1: "d1 = db"
      by (auto simp: index_all_sessions_def index_claude_sessions_def index_codex_sessions_def
          split: prod.splits sum.splits)
    from qA quiet_grows [OF bA gB] have qA': "\<forall>p \<in> set (fst (scan_claude_sessions F)). quiet ?A p db"
      by blast
    from index_scan_again [OF bA peB qA'] obtain x where
      x: "index_scan ?A (scan_claude_sessions F) db = (x, db)"
      "case x of Inl err \<Rightarrow> True | Inr (sc, mc, ec) \<Rightarrow> sc = 0 \<and> mc = 0"
      by (cases "index_scan ?A (scan_claude_sessions F) db") auto
    from index_scan_again [OF bB peB qB] obtain y where
      y: "index_scan ?B (scan_codex_sessions F) db = (y, db)"
      "case y of Inl err \<Rightarrow> True | Inr (sc, mc, ec) \<Rightarrow> sc = 0 \<and> mc = 0"
      by (cases "index_scan ?B (scan_codex_sessions F) db") auto
    from r2 g1 d1 x y show ?thesis
      by (auto simp: index_all_sessions_def index_claude_sessions_def index_codex_sessions_def
          split: prod.splits sum.splits)
  qed
  from main show "d2 = d1" by simp
  from main show "\<exists>c. second = Completed c \<and> claude_sessions c = 0 \<and> codex_sessions c = 0
                \<and> total_messages c = 0" by simp
next
  fix F' file_path s
  assume "filter (\<lambda>s. s_file_path s = file_path) (sessions (committed d1)) = [s]"
  then have a: "already_indexed False d1 file_path = Inr True"
    by (simp add: already_indexed_def session_by_file_path_def scalar_one_or_none_def)
  from a show "index_claude_file L F' False file_path d1 = (Inr None, d1)"
    by (simp add: index_claude_file_def)
  from a show "index_codex_file L F' False file_path d1 = (Inr None, d1)"
    by (simp add: index_codex_file_def)
qed

theorem incremental_run_idempotent_witness:
  "pending_ops empty_store = [] \<and> \<not> is_indexing idle
   \<and> (\<exists>second d2 g2.
         index_all_sessions example_lib example_fs empty_store False idle
           = (Completed \<lparr>claude_sessions = 2, codex_sessions = 2, total_messages = 5,
                         errors = 1\<rparr>,
              indexed_store, idle\<lparr>last_indexed := Some UtcNow\<rparr>)
         \<and> index_all_sessions example_lib example_fs indexed_store False
               (idle\<lparr>last_indexed := Some UtcNow\<rparr>) = (second, d2, g2)
         \<and> d2 = indexed_store
         \<and> (\<exists>c. second = Completed c \<and> claude_sessions c = 0 \<and> codex_sessions c = 0
                \<and> total_messages c = 0)
         \<and> index_claude_file example_lib example_fs False
               ''/claude/projects/-work-app/s1.jsonl'' indexed_store
             = (Inr None, indexed_store))"
proof -
  have pe: "pending_ops empty_store = []" and i: "\<not> is_indexing idle"
    by (simp_all add: empty_store_def idle_def)
  obtain second d2 g2 where r2:
    "index_all_sessions example_lib example_fs indexed_store False
       (idle\<lparr>last_indexed := Some UtcNow\<rparr>) = (second, d2, g2)"
    by (cases "index_all_sessions example_lib example_fs indexed_store False
       (idle\<lparr>last_indexed := Some UtcNow\<rparr>)")
  have one: "\<exists>s. filter (\<lambda>s. s_file_path s = ''/claude/projects/-work-app/s1.jsonl'')
         (sessions (committed indexed_store)) = [s]"
    by (simp add: indexed_store_def indexed_tables_def)
  from incremental_run_idempotent [OF pe i example_first_run r2] one
  show ?thesis using pe i example_first_run r2 by blast
qed

section \<open>Forced re-indexing\<close>

text \<open>
  C7 at the example: the tree is indexed from the empty store, then indexed again with
  forcing. The forced run parses every file again and the store keeps its rows, but each
  file that already has a Session row ends in an exception, the insert of a second row
  with the same primary key, and is counted as an error: five errors (four indexed
  files and the unreadable one) and no session reported, where the first run had one.
\<close>

theorem forced_reindex_errors:
  "index_all_sessions example_lib example_fs empty_store False idle
     = (Completed \<lparr>claude_sessions = 2, codex_sessions = 2, total_messages = 5, errors = 1\<rparr>,
        indexed_store, idle\<lparr>last_indexed := Some UtcNow\<rparr>)
   \<and> index_all_sessions example_lib example_fs indexed_store True
         (idle\<lparr>last_indexed := Some UtcNow\<rparr>)
     = (Completed \<lparr>claude_sessions = 0, codex_sessions = 0, total_messages = 0, errors = 5\<rparr>,
        indexed_store, idle\<lparr>last_indexed := Some UtcNow\<rparr>)
   \<and> fst (index_claude_file example_lib example_fs True
            ''/claude/projects/-work-app/s1.jsonl'' indexed_store) = Inl IntegrityError"
proof -
  have "index_all_sessions example_lib example_fs indexed_store True
         (idle\<lparr>last_indexed := Some UtcNow\<rparr>)
     = (Completed \<lparr>claude_sessions = 0, codex_sessions = 0, total_messages = 0, errors = 5\<rparr>,
        indexed_store, idle\<lparr>last_indexed := Some UtcNow\<rparr>)"
    by (simp add: parser_defs store_defs example_defs indexed_store_def indexed_tables_def
        Let_def)
  moreover have "fst (index_claude_file example_lib example_fs True
            ''/claude/projects/-work-app/s1.jsonl'' indexed_store) = Inl IntegrityError"
    by (simp add: parser_defs store_defs example_defs indexed_store_def indexed_tables_def
        Let_def)
  ultimately show ?thesis using example_first_run by simp
qed

section \<open>Sessions without messages\<close>

lemma claude_session_has_messages:
  "parse_claude_session L F p = Inr (Some (session, msgs)) \<Longrightarrow> msgs \<noteq> []"
  by (auto simp: parse_claude_session_def parse_claude_stream_def
      split: sum.splits option.splits if_splits)

lemma claude_empty_session_skipped:
  "already_indexed force d p = Inr False \<Longrightarrow> parse_claude_session L F p = Inr None \<Longrightarrow>
     index_claude_file L F force p d = (Inr None, d)"
  by (simp add: index_claude_file_def)

text \<open>
  C4 at a Format B file that holds one \<open>session_meta\<close> record and no message: the
  Codex parser returns a session with no messages, not \<open>None\<close>, and the coordinator
  creates a Session row with message count 0 for it. (For Format A the two lemmas above
  give what the claim says: a parsed session has a message, and \<open>None\<close> is skipped
  without an error.)
\<close>

theorem codex_empty_session_indexed:
  "(\<exists>session.
      parse_codex_session example_lib example_fs ''/codex/sessions/2025/01/02/rollout-2.jsonl''
        = Inr (Some (session, []))
      \<and> sm_message_count session = 0 \<and> sm_display session = ''No user message'')
   \<and> fst (index_codex_file example_lib example_fs False
            ''/codex/sessions/2025/01/02/rollout-2.jsonl'' empty_store) = Inr (Some 0)
   \<and> map (\<lambda>s. (s_file_path s, s_message_count s))
         (sessions (committed (snd (index_codex_file example_lib example_fs False
            ''/codex/sessions/2025/01/02/rollout-2.jsonl'' empty_store))))
       = [(''/codex/sessions/2025/01/02/rollout-2.jsonl'', 0)]"
  by (simp add: parser_defs store_defs example_defs Let_def)

section \<open>The identity of a Format B session\<close>

lemma case_snoc:
  "(case xs @ [i] of [] \<Rightarrow> a | x # rest \<Rightarrow> f x) = (case xs of [] \<Rightarrow> f i | x # rest \<Rightarrow> f x)"
  by (cases xs) simp_all

lemma codex_entry_id:
  assumes "codex_entry L fp st e = Inr st'"
  shows "sm_id (ps_meta st')
           = (case codex_meta_id L fp e of Some i \<Rightarrow> i | None \<Rightarrow> sm_id (ps_meta st))"
proof (cases e)
  case (JObj entry)
  let ?payload = "dict_get entry ''payload'' (JObj [])"
  have r: "codex_response_item L pl ts st = Inr s' \<Longrightarrow> sm_id (ps_meta s') = sm_id (ps_meta st)"
    for pl ts s'
    by (cases pl)
      (auto simp: codex_response_item_def codex_append_def Let_def split: if_splits sum.splits)
  show ?thesis
  proof (cases "dict_get entry ''type'' JNull = JStr ''session_meta''")
    case True
    with assms JObj show ?thesis
      by (cases ?payload)
         (auto simp: codex_entry_def codex_session_meta_def codex_meta_id_def Let_def
           split: if_splits)
  next
    case False
    with assms JObj r show ?thesis
      by (auto simp: codex_entry_def codex_meta_id_def Let_def split: if_splits sum.splits)
  qed
qed (use assms in \<open>simp_all add: codex_entry_def\<close>)

lemma codex_run_id:
  "run_entries (codex_entry L fp) st es = Inr st' \<Longrightarrow>
     sm_id (ps_meta st')
       = (case rev (List.map_filter (codex_meta_id L fp) es) of
            [] \<Rightarrow> sm_id (ps_meta st) | last_id # earlier \<Rightarrow> last_id)"
proof (induction es arbitrary: st)
  case Nil then show ?case by (simp add: List.map_filter_simps)
next
  case (Cons e es)
  from Cons.prems obtain st1 where s1: "codex_entry L fp st e = Inr st1"
    and r: "run_entries (codex_entry L fp) st1 es = Inr st'"
    by (auto split: sum.splits)
  from Cons.IH [OF r] codex_entry_id [OF s1] show ?case
    by (cases "codex_meta_id L fp e")
       (simp_all add: List.map_filter_simps case_snoc split: list.splits)
qed

text \<open>
  C8 (amended): for every Format B file that parses, the id in the parser's session
  metadata is the id offered by the file's last \<open>session_meta\<close> record, and the
  filename stem when there is no such record or that id is missing or empty. The
  Session row the coordinator creates for the file does not take that id: its id is
  always the filename stem.
\<close>

theorem codex_session_identity:
  "(parse_codex_session L F file_path = Inr (Some (session, msgs)) \<longrightarrow>
      sm_id session = codex_id_rule L file_path (fst (read_jsonl F file_path)))
   \<and> (pending_ops d = [] \<and> fst (index_codex_file L F force file_path d) = Inr (Some n) \<longrightarrow>
        (\<exists>s. sessions (committed (snd (index_codex_file L F force file_path d)))
                = sessions (committed d) @ [s]
              \<and> s_id s = JStr (path_stem L file_path) \<and> s_file_path s = file_path))"
proof (intro conjI impI)
  assume "parse_codex_session L F file_path = Inr (Some (session, msgs))"
  then obtain st where
    r: "run_entries (codex_entry L file_path) (codex_init file_path)
          (fst (read_jsonl F file_path)) = Inr st"
    and m: "session = codex_finish_meta L file_path st"
    by (auto simp: parse_codex_session_def parse_codex_stream_def
        split: sum.splits option.splits if_splits)
  from codex_run_id [OF r] m
  show "sm_id session = codex_id_rule L file_path (fst (read_jsonl F file_path))"
    by (simp add: codex_finish_meta_def finish_meta_def codex_id_rule_def codex_init_def Let_def
        split: list.splits)
next
  assume a: "pending_ops d = [] \<and> fst (index_codex_file L F force file_path d) = Inr (Some n)"
  then have pe: "pending_ops d = []" by simp
  from a obtain sm ms T where
    pr: "parse_codex_session L F file_path = Inr (Some (sm, ms))"
    and fl: "flush (driver_accepts d) (codex_unit L file_path sm ms) (committed d) = Inr T"
    and s: "snd (index_codex_file L F force file_path d) = d\<lparr>committed := T, pending_ops := []\<rparr>"
    unfolding index_codex_file_eq [OF pe]
    by (auto split: sum.splits option.splits if_splits)
  from codex_unit_ok [of L file_path sm ms] parse_codex_file_path [OF pr]
  have ok: "unit_ok (JStr (path_stem L file_path)) file_path (codex_unit L file_path sm ms)"
    by simp
  from flush_unit [OF ok, of "driver_accepts d" "committed d"] fl
  obtain s0 where "sessions T = sessions (committed d) @ [s0]" "s_file_path s0 = file_path"
    "s_id s0 = JStr (path_stem L file_path)"
    by (cases "list_all (driver_accepts d) (codex_unit L file_path sm ms)
               \<and> JStr (path_stem L file_path) \<notin> session_ids (committed d)") auto
  with s show "\<exists>s. sessions (committed (snd (index_codex_file L F force file_path d)))
                = sessions (committed d) @ [s]
              \<and> s_id s = JStr (path_stem L file_path) \<and> s_file_path s = file_path"
    by simp
qed

text \<open>
  C8, as stated, at the example's first Codex file: its \<open>session_meta\<close> record carries
  the id \<open>abc\<close>, which the parser reports, and the indexed Session has the id
  \<open>rollout-1\<close>, the filename stem.
\<close>

theorem codex_indexed_id_is_stem_counterexample:
  "(\<exists>session msgs.
      parse_codex_session example_lib example_fs ''/codex/sessions/2025/01/02/rollout-1.jsonl''
        = Inr (Some (session, msgs))
      \<and> sm_id session = JStr ''abc'')
   \<and> fst (index_codex_file example_lib example_fs False
            ''/codex/sessions/2025/01/02/rollout-1.jsonl'' empty_store) = Inr (Some 1)
   \<and> map s_id (sessions (committed (snd (index_codex_file example_lib example_fs False
            ''/codex/sessions/2025/01/02/rollout-1.jsonl'' empty_store))))
       = [JStr ''rollout-1'']"
  by (simp add: parser_defs store_defs example_defs Let_def)

theorem codex_session_identity_witness:
  "(\<exists>session msgs.
      parse_codex_session example_lib example_fs ''/codex/sessions/2025/01/02/rollout-1.jsonl''
        = Inr (Some (session, msgs))
      \<and> sm_id session
          = codex_id_rule example_lib ''/codex/sessions/2025/01/02/rollout-1.jsonl''
              (fst (read_jsonl example_fs ''/codex/sessions/2025/01/02/rollout-1.jsonl''))
      \<and> sm_id session = JStr ''abc'')
   \<and> pending_ops empty_store = []
   \<and> fst (index_codex_file example_lib example_fs False
            ''/codex/sessions/2025/01/02/rollout-1.jsonl'' empty_store) = Inr (Some 1)
   \<and> (\<exists>s. sessions (committed (snd (index_codex_file example_lib example_fs False
                ''/codex/sessions/2025/01/02/rollout-1.jsonl'' empty_store)))
              = sessions (committed empty_store) @ [s]
            \<and> s_id s = JStr (path_stem example_lib ''/codex/sessions/2025/01/02/rollout-1.jsonl'')
            \<and> s_file_path s = ''/codex/sessions/2025/01/02/rollout-1.jsonl'')"
proof -
  have ex: "\<exists>session msgs.
     parse_codex_session example_lib example_fs ''/codex/sessions/2025/01/02/rollout-1.jsonl''
       = Inr (Some (session, msgs)) \<and> sm_id session = JStr ''abc''"
    by (simp add: parser_defs example_defs Let_def)
  then obtain s2 m2 where
    p2: "parse_codex_session example_lib example_fs
           ''/codex/sessions/2025/01/02/rollout-1.jsonl'' = Inr (Some (s2, m2))"
    and i2: "sm_id s2 = JStr ''abc''"
    by blast
  have pe: "pending_ops empty_store = []" by (simp add: empty_store_def)
  have f: "fst (index_codex_file example_lib example_fs False
            ''/codex/sessions/2025/01/02/rollout-1.jsonl'' empty_store) = Inr (Some 1)"
    by (simp add: parser_defs store_defs example_defs Let_def)
  note t = codex_session_identity [of example_lib example_fs "''/codex/sessions/2025/01/02/rollout-1.jsonl''"
      s2 m2 empty_store False 1]
  from t p2 have "sm_id s2
          = codex_id_rule example_lib ''/codex/sessions/2025/01/02/rollout-1.jsonl''
              (fst (read_jsonl example_fs ''/codex/sessions/2025/01/02/rollout-1.jsonl''))"
    by simp
  moreover from t pe f have "\<exists>s. sessions (committed (snd (index_codex_file example_lib example_fs False
                ''/codex/sessions/2025/01/02/rollout-1.jsonl'' empty_store)))
              = sessions (committed empty_store) @ [s]
            \<and> s_id s = JStr (path_stem example_lib ''/codex/sessions/2025/01/02/rollout-1.jsonl'')
            \<and> s_file_path s = ''/codex/sessions/2025/01/02/rollout-1.jsonl''"
    by simp
  ultimately show ?thesis using p2 i2 pe f by simp
qed

end
